theory Spec2Isabelle
  imports Main
begin

section \<open>JavaScript values and the objects the logger inspects\<close>

text \<open>
  This theory embeds the logger module (\<open>createLogger\<close>, its two logger objects, the
  console renderer, the stack and cause-chain helpers, the store write and the
  asynchronous store initialization) and proves properties of it.

  The logger's parameters are typed \<open>any\<close>. A value is a primitive or a reference to an
  object; two references are the same object exactly when their addresses are equal
  (this is what \<open>Set.has\<close> and \<open>!==\<close> compare in \<open>buildCauseChain\<close>).
  Numbers are restricted to integers; functions, symbols and bigints are left out. An
  address outside the heap denotes no object: it is treated as an opaque truthy
  primitive.
\<close>

datatype jsval = JUndefined | JNull | JBool bool | JNum int | JStr string | JRef nat

text \<open>
  An object, reduced to the properties the logger reads: whether it is an
  \<open>instanceof Error\<close>, and its \<open>name\<close>, \<open>message\<close>, \<open>stack\<close> and \<open>cause\<close>.
  An absent property is \<open>JUndefined\<close>. \<open>stack\<close> is a string or absent, as in the
  type of \<open>Error.stack\<close>.
\<close>

record jsobj =
  obj_is_error :: bool
  obj_name :: jsval
  obj_message :: jsval
  obj_stack :: "string option"
  obj_cause :: jsval

text \<open>The metadata handed to the serializer: a caller's value, the literal \<open>{}\<close> of
  \<open>safeMeta\<close>, or the object \<open>{stack, name, causeChain, ...metaObj}\<close> built by
  \<open>error\<close> and \<open>errorEnriched\<close>.\<close>

datatype metaval =
    Plain jsval
  | EmptyObject
  | Enriched "string option" jsval "string list" metaval

text \<open>What a call of \<open>jsonStringify\<close> (fast-safe-stringify) does: it returns a text, returns
  \<open>undefined\<close> (as \<open>JSON.stringify\<close> does for \<open>undefined\<close> or a function), or throws.\<close>

datatype jsres = JsonText string | JsonUndefined | JsonThrows

text \<open>A stack frame as \<open>extractFirstProjectFrame\<close> returns it; \<open>{}\<close> is all \<open>None\<close>.\<close>

record frame =
  frame_file :: "string option"
  frame_line :: "nat option"
  frame_column :: "nat option"

text \<open>
  Everything the module reads from outside itself: the heap of the caller's objects, the
  process environment, the clock, the library functions and the file system. The two
  regular-expression steps (\<open>relativize_line\<close>: the two \<open>replace\<close> calls of
  \<open>cleanStackTrace\<close> on one line; \<open>match_frame\<close>: the two \<open>match\<close> calls of
  \<open>extractFirstProjectFrame\<close> on one line) are parameters: every result below holds for
  any behaviour of them.
\<close>

record env =
  heap :: "jsobj list"
  env_id :: "string option"
  env_log_level :: "string option"
  clock :: string
  jsonStringify :: "metaval \<Rightarrow> jsres"
  obj_to_string :: "nat \<Rightarrow> string"
  relativize_line :: "string \<Rightarrow> string"
  match_frame :: "string \<Rightarrow> frame option"
  capture_stack :: string
  callsite_stack :: string
  path_join_cwd :: "string \<Rightarrow> string"
  file_exists :: "string \<Rightarrow> bool"
  read_file :: "string \<Rightarrow> string option"
  pool_throws :: bool
  query_throws :: bool

subsection \<open>Coercions\<close>

fun truthy :: "jsval \<Rightarrow> bool" where
  "truthy JUndefined = False"
| "truthy JNull = False"
| "truthy (JBool b) = b"
| "truthy (JNum n) = (n \<noteq> 0)"
| "truthy (JStr s) = (s \<noteq> [])"
| "truthy (JRef a) = True"

fun truthy_meta :: "metaval \<Rightarrow> bool" where
  "truthy_meta (Plain v) = truthy v"
| "truthy_meta EmptyObject = True"
| "truthy_meta (Enriched s n c m) = True"

text \<open>\<open>v && typeof v === 'object'\<close>: the object \<open>v\<close> refers to, if any.\<close>

fun get_obj :: "jsobj list \<Rightarrow> jsval \<Rightarrow> jsobj option" where
  "get_obj h (JRef a) = (if a < length h then Some (h ! a) else None)"
| "get_obj h v = None"

text \<open>\<open>typeof v === 'object'\<close>, which also holds of \<open>null\<close>.\<close>

definition typeof_object :: "jsobj list \<Rightarrow> jsval \<Rightarrow> bool" where
  "typeof_object h v = (v = JNull \<or> get_obj h v \<noteq> None)"

definition digit_char :: "nat \<Rightarrow> char" where
  "digit_char d = char_of (48 + d)"

function show_nat :: "nat \<Rightarrow> string" where
  "show_nat n = (if n < 10 then [digit_char n] else show_nat (n div 10) @ [digit_char (n mod 10)])"
  by pat_completeness auto
termination
  by (relation "measure (\<lambda>n. n)") auto

definition show_int :: "int \<Rightarrow> string" where
  "show_int i = (if i < 0 then CHR ''-'' # show_nat (nat (- i)) else show_nat (nat i))"

text \<open>\<open>String(v)\<close> and the conversion of \<open>${v}\<close> in a template. For an object it runs the
  object's own \<open>toString\<close>, whose result is a parameter; a \<open>toString\<close> that throws is
  not modelled.\<close>

fun toStr :: "env \<Rightarrow> jsval \<Rightarrow> string" where
  "toStr e JUndefined = ''undefined''"
| "toStr e JNull = ''null''"
| "toStr e (JBool b) = (if b then ''true'' else ''false'')"
| "toStr e (JNum n) = show_int n"
| "toStr e (JStr s) = s"
| "toStr e (JRef a) = obj_to_string e a"

text \<open>\<open>v.message\<close> for a truthy \<open>v\<close>: a primitive has no such property.\<close>

definition message_of :: "jsobj list \<Rightarrow> jsval \<Rightarrow> jsval" where
  "message_of h v = (case get_obj h v of Some ob \<Rightarrow> obj_message ob | None \<Rightarrow> JUndefined)"

definition stack_of :: "jsobj list \<Rightarrow> jsval \<Rightarrow> string option" where
  "stack_of h v = (case get_obj h v of Some ob \<Rightarrow> obj_stack ob | None \<Rightarrow> None)"

section \<open>Message and metadata conversion\<close>

text \<open>\<open>v && typeof v === 'string'\<close>: the non-empty string \<open>v\<close> is, if it is one.\<close>

fun nonempty_string :: "jsval \<Rightarrow> string option" where
  "nonempty_string (JStr s) = (if s \<noteq> [] then Some s else None)"
| "nonempty_string v = None"

text \<open>The \<open>try\<close> block of \<open>safeToStringMessage\<close> with its \<open>catch\<close>: when \<open>jsonStringify\<close>
  throws, or returns \<open>undefined\<close> (so that \<open>.slice\<close> throws), the result is
  \<open>String(message)\<close>.\<close>

definition json_or_string :: "env \<Rightarrow> jsval \<Rightarrow> string" where
  "json_or_string e message =
     (case jsonStringify e (Plain message) of
        JsonText t \<Rightarrow> take 2000 t
      | JsonUndefined \<Rightarrow> toStr e message
      | JsonThrows \<Rightarrow> toStr e message)"

definition safeToStringMessage :: "env \<Rightarrow> jsval \<Rightarrow> string" where
  "safeToStringMessage e message =
     (case message of
        JStr s \<Rightarrow> s
      | _ \<Rightarrow>
        (case get_obj (heap e) message of
           Some ob \<Rightarrow>
             (case nonempty_string (obj_message ob) of
                Some m \<Rightarrow> m
              | None \<Rightarrow> json_or_string e message)
         | None \<Rightarrow> toStr e message))"

definition safeMeta :: "metaval \<Rightarrow> metaval" where
  "safeMeta meta = (if \<not> truthy_meta meta then EmptyObject else meta)"

section \<open>Cause-chain walker\<close>

text \<open>The title pushed for a visited node \<open>current\<close> (an object \<open>ob\<close>):
  \<open>current.name ? `${current.name}: ${current.message}` : safeToStringMessage(current)\<close>.\<close>

definition cause_title :: "env \<Rightarrow> jsval \<Rightarrow> jsobj \<Rightarrow> string" where
  "cause_title e current ob =
     (if truthy (obj_name ob)
      then toStr e (obj_name ob) @ '': '' @ toStr e (obj_message ob)
      else safeToStringMessage e current)"

text \<open>The \<open>while\<close> loop of \<open>buildCauseChain\<close>, with its three variables \<open>visited\<close>,
  \<open>current\<close> and \<open>chain\<close>.\<close>

function (sequential) cause_loop ::
  "env \<Rightarrow> jsval \<Rightarrow> nat set \<Rightarrow> jsval \<Rightarrow> string list \<Rightarrow> string list" where
  "cause_loop e err visited (JRef a) chain =
     (if a < length (heap e) \<and> a \<notin> visited
      then cause_loop e err (insert a visited) (obj_cause (heap e ! a))
             (if JRef a \<noteq> err then chain @ [cause_title e (JRef a) (heap e ! a)] else chain)
      else chain)"
| "cause_loop e err visited current chain = chain"
  by pat_completeness auto
termination
proof (relation "measure (\<lambda>(e, err, visited, current, chain).
                   card ({..<length (heap e)} - visited))")
  show "wf (measure (\<lambda>(e, err, visited, current, chain).
                   card ({..<length (heap e)} - visited)))"
    by simp
next
  fix e :: env and err :: jsval and visited :: "nat set" and a :: nat and chain :: "string list"
  assume "a < length (heap e) \<and> a \<notin> visited"
  then have "{..<length (heap e)} - insert a visited \<subset> {..<length (heap e)} - visited"
    by auto
  then have "card ({..<length (heap e)} - insert a visited) < card ({..<length (heap e)} - visited)"
    by (intro psubset_card_mono) auto
  then show "((e, err, insert a visited, obj_cause (heap e ! a),
               if JRef a \<noteq> err then chain @ [cause_title e (JRef a) (heap e ! a)] else chain),
              (e, err, visited, JRef a, chain))
             \<in> measure (\<lambda>(e, err, visited, current, chain).
                   card ({..<length (heap e)} - visited))"
    by simp
qed

definition buildCauseChain :: "env \<Rightarrow> jsval \<Rightarrow> string list" where
  "buildCauseChain e err = cause_loop e err {} err []"

text \<open>The objects reached from a value by following \<open>cause\<close> zero or more times.\<close>

inductive reaches :: "jsobj list \<Rightarrow> jsval \<Rightarrow> nat \<Rightarrow> bool" where
  reaches_here: "a < length h \<Longrightarrow> reaches h (JRef a) a"
| reaches_step: "a < length h \<Longrightarrow> reaches h (obj_cause (h ! a)) b \<Longrightarrow> reaches h (JRef a) b"

text \<open>The objects reached from \<open>err\<close> through at least one cause reference.\<close>

definition cause_nodes :: "jsobj list \<Rightarrow> jsval \<Rightarrow> nat set" where
  "cause_nodes h err = {b. \<exists>a. err = JRef a \<and> a < length h \<and> reaches h (obj_cause (h ! a)) b}"

section \<open>Strings\<close>

text \<open>A string is the list of its UTF-16 code units; only their number and the ASCII ones
  matter below.\<close>

definition esc :: char where
  "esc = CHR 0x1B"

definition nl :: char where
  "nl = CHR 0x0A"

definition cr :: char where
  "cr = CHR 0x0D"

text \<open>\<open>`\x1b[${code}m${s}\x1b[0m`\<close>.\<close>

definition colored :: "string \<Rightarrow> string \<Rightarrow> string" where
  "colored code s = esc # ''['' @ code @ ''m'' @ s @ esc # ''[0m''"

text \<open>\<open>s.split(c)\<close> for a one-character separator: the empty string gives one empty piece.\<close>

fun str_split :: "char \<Rightarrow> string \<Rightarrow> string list" where
  "str_split c [] = [[]]"
| "str_split c (x # xs) =
     (if x = c then [] # str_split c xs
      else (case str_split c xs of
              w # ws \<Rightarrow> (x # w) # ws
            | [] \<Rightarrow> [[x]]))"

fun str_join :: "string \<Rightarrow> string list \<Rightarrow> string" where
  "str_join sep [] = []"
| "str_join sep [x] = x"
| "str_join sep (x # y # ys) = x @ sep @ str_join sep (y # ys)"

definition starts_with :: "string \<Rightarrow> string \<Rightarrow> bool" where
  "starts_with s p = (take (length p) s = p)"

fun str_includes :: "string \<Rightarrow> string \<Rightarrow> bool" where
  "str_includes [] sub = (sub = [])"
| "str_includes (c # cs) sub = (starts_with (c # cs) sub \<or> str_includes cs sub)"

text \<open>\<open>s.split(/\r?\n/)\<close>: a piece that a newline ends loses one carriage return before it.\<close>

definition strip_cr :: "string \<Rightarrow> string" where
  "strip_cr w = (if w \<noteq> [] \<and> last w = cr then butlast w else w)"

definition split_lines :: "string \<Rightarrow> string list" where
  "split_lines s =
     (case rev (str_split nl s) of
        [] \<Rightarrow> []
      | l # before \<Rightarrow> map strip_cr (rev before) @ [l])"

text \<open>\<open>s.padStart(n, ' ')\<close>.\<close>

definition padStart :: "nat \<Rightarrow> string \<Rightarrow> string" where
  "padStart n s = replicate (n - length s) CHR '' '' @ s"

section \<open>Effects and exceptions\<close>

text \<open>What a call does to the world outside the module, in the order it does it. A pool
  is named by a number; \<open>Query c q\<close> is \<open>c.query(q)\<close> issued on pool \<open>c\<close>.\<close>

datatype sql =
    CreateDatabase string
  | CreateTable
  | ShowColumns
  | AlterTable
  | Insert string string string string

datatype effect =
    ConsoleLog string
  | ConsoleError string
  | CreatePool nat string
  | Query nat sql
  | Dispose nat
  | ExistsSync string
  | ReadFileSync string
  | ExitTimer

datatype exn = JsonFailure | TypeError | QueryFailure | PoolFailure | FsFailure

text \<open>A computation lists the effects it performed and then either returns a value or
  raises: \<open>Inl\<close> is an exception that leaves the function.\<close>

type_synonym 'a comp = "effect list \<times> (exn + 'a)"

definition ret :: "'a \<Rightarrow> 'a comp" where
  "ret x = ([], Inr x)"

definition throw :: "exn \<Rightarrow> 'a comp" where
  "throw x = ([], Inl x)"

definition emit :: "effect \<Rightarrow> unit comp" where
  "emit f = ([f], Inr ())"

definition bind :: "'a comp \<Rightarrow> ('a \<Rightarrow> 'b comp) \<Rightarrow> 'b comp" where
  "bind m f =
     (case m of
        (es, Inl x) \<Rightarrow> (es, Inl x)
      | (es, Inr v) \<Rightarrow> (case f v of (es', r) \<Rightarrow> (es @ es', r)))"

text \<open>\<open>m; n\<close>.\<close>

definition seq :: "unit comp \<Rightarrow> 'b comp \<Rightarrow> 'b comp" where
  "seq m n = bind m (\<lambda>u. n)"

text \<open>\<open>try { m } catch (x) { handler(x) }\<close>.\<close>

definition try_catch :: "'a comp \<Rightarrow> (exn \<Rightarrow> 'a comp) \<Rightarrow> 'a comp" where
  "try_catch m handler =
     (case m of
        (es, Inl x) \<Rightarrow> (case handler x of (es', r) \<Rightarrow> (es @ es', r))
      | (es, Inr v) \<Rightarrow> (es, Inr v))"

section \<open>Module state and configuration\<close>

record mysql_config =
  host :: string
  port :: nat
  user :: string
  password :: string
  database :: "string option"

record config =
  mysql :: "mysql_config option"
  logLevel :: "string option"

text \<open>A call of \<open>initializeConnection\<close> that is suspended at one of its \<open>await\<close>s:
  on \<open>CREATE DATABASE\<close> (it holds the bootstrap pool), on \<open>dispose\<close>, on
  \<open>CREATE TABLE\<close>, on \<open>SHOW COLUMNS\<close> or on \<open>ALTER TABLE\<close>.\<close>

datatype init_task =
    AwaitCreateDb nat mysql_config
  | AwaitDispose mysql_config
  | AwaitCreateTable
  | AwaitShowColumns
  | AwaitAlterTable

text \<open>The module's variables \<open>conn\<close>, \<open>dbInitialized\<close> and \<open>currentLogLevel\<close>, with the
  suspended initializations and the number of pools created so far.\<close>

record state =
  conn :: "nat option"
  dbInitialized :: bool
  currentLogLevel :: nat
  inits :: "init_task list"
  pools :: nat

definition initial_state :: state where
  "initial_state = \<lparr> conn = None, dbInitialized = False, currentLogLevel = 1,
                      inits = [], pools = 0 \<rparr>"

text \<open>The own properties of the table \<open>LOG_LEVELS\<close>; a property inherited from
  \<open>Object.prototype\<close> is not modelled.\<close>

definition LOG_LEVELS :: "string \<Rightarrow> nat option" where
  "LOG_LEVELS k =
     (if k = ''debug'' then Some 0
      else if k = ''info'' then Some 1
      else if k = ''warn'' then Some 2
      else if k = ''error'' then Some 3
      else None)"

definition dev :: "env \<Rightarrow> bool" where
  "dev e = (env_id e = Some ''dev'')"

section \<open>Console renderer\<close>

definition is_digit :: "char \<Rightarrow> bool" where
  "is_digit c = (c \<in> set ''0123456789'')"

text \<open>What follows a match of \<open>\[\d+m\<close> at the head of a string, if it matches there.\<close>

definition ansi_tail :: "string \<Rightarrow> string option" where
  "ansi_tail cs =
     (case cs of
        [] \<Rightarrow> None
      | b # r \<Rightarrow>
          if b = CHR ''['' \<and> takeWhile is_digit r \<noteq> []
          then (case dropWhile is_digit r of
                  [] \<Rightarrow> None
                | m # r' \<Rightarrow> if m = CHR ''m'' then Some r' else None)
          else None)"

text \<open>\<open>level.replace(/\x1b\[\d+m/g, '')\<close>.\<close>

function strip_ansi :: "string \<Rightarrow> string" where
  "strip_ansi [] = []"
| "strip_ansi (c # cs) =
     (if c = esc
      then (case ansi_tail cs of
              Some r \<Rightarrow> strip_ansi r
            | None \<Rightarrow> c # strip_ansi cs)
      else c # strip_ansi cs)"
  by pat_completeness auto
termination
proof (relation "measure length", goal_cases)
  case 1
  show ?case by simp
next
  case 2
  show ?case by simp
next
  case (3 c cs r)
  then obtain b t m where "cs = b # t" and "dropWhile is_digit t = m # r"
    by (auto simp: ansi_tail_def split: list.splits if_splits)
  moreover have "length (dropWhile is_digit t) \<le> length t"
    by (rule length_dropWhile_le)
  ultimately show ?case by simp
next
  case 4
  show ?case by simp
qed

text \<open>The value of \<open>meta ? jsonStringify(meta) : ""\<close> as the template prints it.\<close>

definition meta_text :: "env \<Rightarrow> metaval \<Rightarrow> string comp" where
  "meta_text e meta =
     (if truthy_meta meta
      then (case jsonStringify e meta of
              JsonText t \<Rightarrow> ret t
            | JsonUndefined \<Rightarrow> ret ''undefined''
            | JsonThrows \<Rightarrow> throw JsonFailure)
      else ret [])"

text \<open>The line \<open>log\<close> prints: the part of \<open>log\<close> from \<open>new Date()\<close> to the template
  of \<open>console.log\<close>, for the already serialized metadata \<open>metaStr\<close>.\<close>

definition log_line :: "env \<Rightarrow> string \<Rightarrow> jsval \<Rightarrow> string \<Rightarrow> string option \<Rightarrow> string" where
  "log_line e level message metaStr fileLocation =
     (let hhMMTime = colored ''34'' (take 8 (drop 11 (clock e)));
          msg = toStr e message;
          level' = (if level = ''error'' then colored ''31'' level
                    else if level = ''info'' then colored ''32'' level
                    else if level = ''debug'' then colored ''90'' level
                    else if level = ''warn'' then colored ''33'' level
                    else level);
          message' = (if level = ''debug'' then colored ''90'' msg else msg);
          meta' = (if level = ''error'' \<or> level = ''info'' \<or> level = ''warn''
                   then colored ''35'' metaStr
                   else if level = ''debug'' then colored ''90'' metaStr
                   else metaStr);
          location = (case fileLocation of
                        None \<Rightarrow> []
                      | Some loc \<Rightarrow> if loc = [] then [] else '' '' @ colored ''90'' loc)
      in hhMMTime @ '' ['' @ level' @ '']: '' @ message' @ '' '' @ meta' @ location)"

text \<open>The severity filter at the head of \<open>log\<close>:
  \<open>messageLevel !== undefined && messageLevel < currentLogLevel\<close>.\<close>

definition below_minimum :: "state \<Rightarrow> string \<Rightarrow> bool" where
  "below_minimum st level =
     (let levelKey = strip_ansi level;
          messageLevel = LOG_LEVELS levelKey
      in case messageLevel of
           None \<Rightarrow> False
         | Some n \<Rightarrow> n < currentLogLevel st)"

definition log ::
  "env \<Rightarrow> state \<Rightarrow> string \<Rightarrow> jsval \<Rightarrow> metaval \<Rightarrow> string option \<Rightarrow> unit comp" where
  "log e st level message meta fileLocation =
     (if below_minimum st level then ret ()
      else bind (meta_text e meta) (\<lambda>metaStr.
             emit (ConsoleLog (log_line e level message metaStr fileLocation))))"

section \<open>Stack analyzer\<close>

definition cleanStackTrace :: "env \<Rightarrow> string \<Rightarrow> string" where
  "cleanStackTrace e stack =
     (if stack = [] then []
      else str_join [nl] (map (relativize_line e) (str_split nl stack)))"

definition formatStack :: "env \<Rightarrow> string \<Rightarrow> nat \<Rightarrow> string" where
  "formatStack e stack maxLines =
     (if stack = [] then []
      else
        let lines = str_split nl (cleanStackTrace e stack);
            lines' = (case lines of
                        [] \<Rightarrow> lines
                      | l0 # rest \<Rightarrow>
                          if length lines > 1 \<and> starts_with l0 ''Error'' then rest else lines);
            limitedLines = take maxLines lines'
        in str_join [nl] (map (colored ''90'') limitedLines))"

definition empty_frame :: frame where
  "empty_frame = \<lparr> frame_file = None, frame_line = None, frame_column = None \<rparr>"

text \<open>The \<open>for\<close> loop of \<open>extractFirstProjectFrame\<close>: the frame of the first line that
  one of the two patterns matches.\<close>

fun first_frame :: "env \<Rightarrow> string list \<Rightarrow> frame" where
  "first_frame e [] = empty_frame"
| "first_frame e (l # ls) =
     (case match_frame e l of
        Some f \<Rightarrow> f
      | None \<Rightarrow> first_frame e ls)"

definition extractFirstProjectFrame :: "env \<Rightarrow> string option \<Rightarrow> frame" where
  "extractFirstProjectFrame e stack =
     (case stack of
        None \<Rightarrow> empty_frame
      | Some s \<Rightarrow>
          if s = [] then empty_frame
          else first_frame e (str_split nl (cleanStackTrace e s)))"

definition is_ts_line :: "string \<Rightarrow> bool" where
  "is_ts_line l = (str_includes l ''.ts:'' \<or> str_includes l ''.ts)'')"

definition extractFullTsStacktrace :: "env \<Rightarrow> string option \<Rightarrow> string" where
  "extractFullTsStacktrace e stack =
     (case stack of
        None \<Rightarrow> []
      | Some s \<Rightarrow>
          if s = [] then []
          else str_join [nl] (filter is_ts_line (str_split nl (cleanStackTrace e s))))"

text \<open>\<open>capture_stack e\<close> is the \<open>stack\<close> of the \<open>new Error()\<close> made here (empty when the
  runtime gives none).\<close>

definition captureCallStack :: "env \<Rightarrow> string" where
  "captureCallStack e =
     (if capture_stack e = [] then []
      else str_join [nl]
             (filter is_ts_line (drop 1 (str_split nl (cleanStackTrace e (capture_stack e))))))"

definition is_project_line :: "string \<Rightarrow> bool" where
  "is_project_line l = (str_includes l ''/src/'' \<and> str_includes l ''.ts'')"

definition hasProjectTsFrame :: "string \<Rightarrow> bool" where
  "hasProjectTsFrame stack = (stack \<noteq> [] \<and> list_ex is_project_line (str_split nl stack))"

text \<open>\<open>frame.file && frame.line ? `${frame.file}:${frame.line}` : undefined\<close>, the
  expression every logger method computes.\<close>

definition file_location :: "frame \<Rightarrow> string option" where
  "file_location fr =
     (case frame_file fr of
        None \<Rightarrow> None
      | Some f \<Rightarrow>
          (case frame_line fr of
             None \<Rightarrow> None
           | Some l \<Rightarrow> if f \<noteq> [] \<and> l \<noteq> 0 then Some (f @ '':'' @ show_nat l) else None))"

section \<open>Code-frame builder\<close>

text \<open>One iteration of the \<open>for\<close> loop of \<open>buildCodeFrame\<close>, for the index \<open>i\<close>.\<close>

definition code_line :: "string list \<Rightarrow> nat \<Rightarrow> nat option \<Rightarrow> nat \<Rightarrow> string" where
  "code_line content ln col i =
     (let prefix = (if i + 1 = ln then colored ''31'' ''>'' else '' '');
          num = padStart 4 (show_nat (i + 1));
          codeLine = content ! i;
          codeLine' = (case col of
                         None \<Rightarrow> codeLine
                       | Some c \<Rightarrow>
                           if i + 1 = ln \<and> c \<noteq> 0
                           then codeLine @ [nl] @ ''     '' @ replicate (c - 1) CHR '' ''
                                  @ colored ''31'' ''^''
                           else codeLine)
      in prefix @ '' '' @ num @ '' | '' @ codeLine')"

text \<open>The file is looked up with \<open>fs.existsSync\<close> and read with \<open>fs.readFileSync\<close>; a read
  that throws is caught and gives the empty frame.\<close>

definition buildCodeFrame :: "env \<Rightarrow> frame \<Rightarrow> string comp" where
  "buildCodeFrame e fr =
     (case frame_file fr of
        None \<Rightarrow> ret []
      | Some f \<Rightarrow>
          (case frame_line fr of
             None \<Rightarrow> ret []
           | Some ln \<Rightarrow>
               if f = [] then ret []
               else
                 try_catch
                   (let filePath = (if starts_with f ''/'' then f else path_join_cwd e f)
                    in seq (emit (ExistsSync filePath))
                         (if \<not> file_exists e filePath then ret []
                          else seq (emit (ReadFileSync filePath))
                                 (case read_file e filePath of
                                    None \<Rightarrow> throw FsFailure
                                  | Some text \<Rightarrow>
                                      let content = split_lines text;
                                          start = ln - 3;
                                          end = min (length content) (ln + 2)
                                      in ret (str_join [nl]
                                                (map (code_line content ln (frame_column fr))
                                                     [start ..< end])))))
                   (\<lambda>x. ret [])))"

definition printStackEnhanced :: "env \<Rightarrow> jsval \<Rightarrow> unit comp" where
  "printStackEnhanced e possibleError =
     (if \<not> truthy possibleError then ret ()
      else
        (case stack_of (heap e) possibleError of
           None \<Rightarrow> ret ()
         | Some stack \<Rightarrow>
             let filtered = str_join [nl]
                              (take 5 (filter is_project_line (str_split nl (callsite_stack e))));
                 outputStack =
                   (if dev e \<and> \<not> hasProjectTsFrame stack \<and> callsite_stack e \<noteq> []
                       \<and> filtered \<noteq> []
                    then stack @ [nl, nl] @ ''Captured callsite (added by logger):'' @ [nl]
                           @ filtered
                    else stack)
             in seq (emit (ConsoleLog (formatStack e outputStack 3)))
                  (if dev e
                   then bind (buildCodeFrame e (extractFirstProjectFrame e (Some outputStack)))
                          (\<lambda>codeFrame.
                             if codeFrame \<noteq> []
                             then emit (ConsoleLog ([nl] @ colored ''36'' ''Code frame:'' @ [nl]
                                                      @ codeFrame @ [nl]))
                             else ret ())
                   else ret ())))"

section \<open>Store write\<close>

text \<open>\<open>conn.query(q)\<close>: a \<open>TypeError\<close> when \<open>conn\<close> is \<open>null\<close>; otherwise the call throws at
  once (\<open>query_throws\<close>) or issues the query and returns its promise.\<close>

definition conn_query :: "env \<Rightarrow> state \<Rightarrow> sql \<Rightarrow> unit comp" where
  "conn_query e st q =
     (case conn st of
        None \<Rightarrow> throw TypeError
      | Some c \<Rightarrow> if query_throws e then throw QueryFailure else emit (Query c q))"

text \<open>\<open>jsonStringify(metaObj).slice(0, 2000)\<close>: \<open>slice\<close> of \<open>undefined\<close> is a \<open>TypeError\<close>.\<close>

definition meta_slice :: "env \<Rightarrow> metaval \<Rightarrow> string comp" where
  "meta_slice e metaObj =
     (case jsonStringify e metaObj of
        JsonText t \<Rightarrow> ret (take 2000 t)
      | JsonUndefined \<Rightarrow> throw TypeError
      | JsonThrows \<Rightarrow> throw JsonFailure)"

definition storeInDB ::
  "env \<Rightarrow> state \<Rightarrow> string \<Rightarrow> jsval \<Rightarrow> metaval \<Rightarrow> string option \<Rightarrow> unit comp" where
  "storeInDB e st level message meta stacktrace =
     (if conn st = None \<or> \<not> dbInitialized st then ret ()
      else
        try_catch
          (let msg = safeToStringMessage e message;
               metaObj = safeMeta meta
           in bind (meta_slice e metaObj) (\<lambda>metaStr.
                let stackStr = (case stacktrace of None \<Rightarrow> [] | Some s \<Rightarrow> s)
                in conn_query e st (Insert level msg metaStr stackStr)))
          (\<lambda>x. emit (ConsoleError ''Unexpected failure preparing log for DB'')))"

text \<open>How the promise of a detached insert settles.\<close>

datatype outcome = Resolved nat | Rejected

text \<open>The \<open>.catch\<close> handler attached to the insert's promise.\<close>

definition insert_settled :: "env \<Rightarrow> outcome \<Rightarrow> unit comp" where
  "insert_settled e oc =
     (case oc of
        Resolved n \<Rightarrow> ret ()
      | Rejected \<Rightarrow>
          if dev e then emit (ConsoleError ''Failed to persist log to DB'') else ret ())"

section \<open>Native logger\<close>

text \<open>\<open>message instanceof Error\<close>: the object, when \<open>message\<close> is an \<open>Error\<close>.\<close>

definition as_error :: "env \<Rightarrow> jsval \<Rightarrow> jsobj option" where
  "as_error e v =
     (case get_obj (heap e) v of
        None \<Rightarrow> None
      | Some ob \<Rightarrow> if obj_is_error ob then Some ob else None)"

text \<open>\<open>if (stack) printStackEnhanced(err)\<close>.\<close>

definition print_stack_if_any :: "env \<Rightarrow> jsobj \<Rightarrow> jsval \<Rightarrow> unit comp" where
  "print_stack_if_any e ob err =
     (case obj_stack ob of
        None \<Rightarrow> ret ()
      | Some s \<Rightarrow> if s = [] then ret () else printStackEnhanced e err)"

text \<open>\<open>if (causeChain.length) console.log('\x1b[35mCause chain:\x1b[0m ' + causeChain.join(' -> '))\<close>.\<close>

definition print_cause_chain :: "string list \<Rightarrow> unit comp" where
  "print_cause_chain causeChain =
     (if causeChain \<noteq> []
      then emit (ConsoleLog (colored ''35'' ''Cause chain:'' @ '' '' @ str_join '' -> '' causeChain))
      else ret ())"

definition logger_info :: "env \<Rightarrow> state \<Rightarrow> jsval \<Rightarrow> jsval \<Rightarrow> unit comp" where
  "logger_info e st message meta =
     (let metaObj = safeMeta (Plain meta);
          callStack = captureCallStack e;
          fullTsStack = extractFullTsStacktrace e (Some callStack);
          fr = extractFirstProjectFrame e (Some callStack);
          fileLocation = file_location fr
      in seq (log e st ''info'' (JStr (safeToStringMessage e message)) metaObj fileLocation)
             (storeInDB e st ''info'' message metaObj (Some fullTsStack)))"

definition logger_error :: "env \<Rightarrow> state \<Rightarrow> jsval \<Rightarrow> jsval \<Rightarrow> unit comp" where
  "logger_error e st message meta =
     (let metaObj = safeMeta (Plain meta)
      in case as_error e message of
           Some ob \<Rightarrow>
             let causeChain = buildCauseChain e message;
                 fullTsStack = extractFullTsStacktrace e (obj_stack ob);
                 fr = extractFirstProjectFrame e (obj_stack ob);
                 fileLocation = file_location fr;
                 enrichedMeta = Enriched (obj_stack ob) (obj_name ob) causeChain metaObj
             in seq (log e st ''error'' (obj_message ob) metaObj fileLocation)
                 (seq (print_stack_if_any e ob message)
                 (seq (print_cause_chain causeChain)
                      (storeInDB e st ''error'' (obj_message ob) enrichedMeta (Some fullTsStack))))
         | None \<Rightarrow>
             let msgStr = safeToStringMessage e message;
                 callStack = captureCallStack e;
                 fullTsStack = extractFullTsStacktrace e (Some callStack);
                 fr = extractFirstProjectFrame e (Some callStack);
                 fileLocation = file_location fr
             in seq (log e st ''error'' (JStr msgStr) metaObj fileLocation)
                 (seq (printStackEnhanced e message)
                      (storeInDB e st ''error'' (JStr msgStr) metaObj (Some fullTsStack))))"

definition logger_errorEnriched :: "env \<Rightarrow> state \<Rightarrow> jsval \<Rightarrow> jsval \<Rightarrow> jsval \<Rightarrow> unit comp" where
  "logger_errorEnriched e st message error meta =
     (let metaObj = safeMeta (Plain meta)
      in case as_error e error of
           Some ob \<Rightarrow>
             let causeChain = buildCauseChain e error;
                 fullTsStack = extractFullTsStacktrace e (obj_stack ob);
                 fr = extractFirstProjectFrame e (obj_stack ob);
                 fileLocation = file_location fr;
                 text = JStr (toStr e message @ '': '' @ toStr e (obj_message ob));
                 enrichedMeta = Enriched (obj_stack ob) (obj_name ob) causeChain metaObj
             in seq (log e st ''error'' text metaObj fileLocation)
                 (seq (print_stack_if_any e ob error)
                 (seq (print_cause_chain causeChain)
                      (storeInDB e st ''error'' text enrichedMeta (Some fullTsStack))))
         | None \<Rightarrow>
             let errStr = safeToStringMessage e error;
                 callStack = captureCallStack e;
                 fullTsStack = extractFullTsStacktrace e (Some callStack);
                 fr = extractFirstProjectFrame e (Some callStack);
                 fileLocation = file_location fr;
                 text = JStr (toStr e message @ '': '' @ errStr)
             in seq (log e st ''error'' text metaObj fileLocation)
                 (seq (printStackEnhanced e error)
                      (storeInDB e st ''error'' text metaObj (Some fullTsStack))))"

definition logger_warn :: "env \<Rightarrow> state \<Rightarrow> jsval \<Rightarrow> jsval \<Rightarrow> unit comp" where
  "logger_warn e st message meta =
     (let metaObj = safeMeta (Plain meta);
          callStack = captureCallStack e;
          fullTsStack = extractFullTsStacktrace e (Some callStack);
          fr = extractFirstProjectFrame e (Some callStack);
          fileLocation = file_location fr
      in seq (log e st ''warn'' (JStr (safeToStringMessage e message)) metaObj fileLocation)
             (storeInDB e st ''warn'' message metaObj (Some fullTsStack)))"

definition logger_debug :: "env \<Rightarrow> state \<Rightarrow> jsval \<Rightarrow> jsval \<Rightarrow> unit comp" where
  "logger_debug e st message meta =
     (let callStack = captureCallStack e;
          fr = extractFirstProjectFrame e (Some callStack);
          fileLocation = file_location fr
      in log e st ''debug'' (JStr (safeToStringMessage e message)) (safeMeta (Plain meta))
           fileLocation)"

section \<open>Framework-compatible logger\<close>

text \<open>\<open>typeof msg === 'object' ? jsonStringify(msg) : other\<close>.\<close>

definition stringify_if_object :: "env \<Rightarrow> jsval \<Rightarrow> jsval \<Rightarrow> jsval comp" where
  "stringify_if_object e msg other =
     (if typeof_object (heap e) msg
      then (case jsonStringify e (Plain msg) of
              JsonText t \<Rightarrow> ret (JStr t)
            | JsonUndefined \<Rightarrow> ret JUndefined
            | JsonThrows \<Rightarrow> throw JsonFailure)
      else ret other)"

definition fastify_info :: "env \<Rightarrow> state \<Rightarrow> jsval \<Rightarrow> unit comp" where
  "fastify_info e st msg =
     bind (stringify_if_object e msg (JStr (toStr e msg))) (\<lambda>messageString.
       let callStack = captureCallStack e;
           fr = extractFirstProjectFrame e (Some callStack);
           fileLocation = file_location fr
       in log e st ''info'' messageString (Plain JUndefined) fileLocation)"

definition fastify_error :: "env \<Rightarrow> state \<Rightarrow> jsval \<Rightarrow> jsval list \<Rightarrow> unit comp" where
  "fastify_error e st msg args =
     (let errorMessage = (if truthy msg \<and> truthy (message_of (heap e) msg)
                          then message_of (heap e) msg
                          else JStr (toStr e msg));
          meta = (case args of [] \<Rightarrow> JUndefined | a # rest \<Rightarrow> a);
          callStack = (case stack_of (heap e) msg of
                         None \<Rightarrow> captureCallStack e
                       | Some s \<Rightarrow> if s = [] then captureCallStack e else s);
          fullTsStack = extractFullTsStacktrace e (Some callStack);
          fr = extractFirstProjectFrame e (Some callStack);
          fileLocation = file_location fr
      in seq (log e st ''error'' errorMessage (Plain meta) fileLocation)
             (bind (stringify_if_object e msg errorMessage) (\<lambda>stored.
                storeInDB e st ''error'' stored (Plain meta) (Some fullTsStack))))"

definition fastify_warn :: "env \<Rightarrow> state \<Rightarrow> jsval \<Rightarrow> unit comp" where
  "fastify_warn e st msg =
     bind (stringify_if_object e msg (JStr (toStr e msg))) (\<lambda>messageString.
       let callStack = captureCallStack e;
           fullTsStack = extractFullTsStacktrace e (Some callStack);
           fr = extractFirstProjectFrame e (Some callStack);
           fileLocation = file_location fr
       in seq (log e st ''warn'' messageString (Plain JUndefined) fileLocation)
              (storeInDB e st ''warn'' messageString (Plain JUndefined) (Some fullTsStack)))"

definition fastify_debug :: "env \<Rightarrow> state \<Rightarrow> jsval \<Rightarrow> unit comp" where
  "fastify_debug e st msg =
     (let callStack = captureCallStack e;
          fr = extractFirstProjectFrame e (Some callStack);
          fileLocation = file_location fr
      in log e st ''debug'' (JStr (toStr e msg)) (Plain JUndefined) fileLocation)"

text \<open>\<open>ExitTimer\<close> is \<open>setTimeout(() => process.exit(1), 100)\<close>.\<close>

definition fastify_fatal :: "env \<Rightarrow> state \<Rightarrow> jsval \<Rightarrow> unit comp" where
  "fastify_fatal e st msg =
     bind (stringify_if_object e msg (JStr (toStr e msg))) (\<lambda>messageString.
       let callStack = captureCallStack e;
           fullTsStack = extractFullTsStacktrace e (Some callStack);
           fr = extractFirstProjectFrame e (Some callStack);
           fileLocation = file_location fr
       in seq (log e st ''error'' messageString (Plain JUndefined) fileLocation)
           (seq (storeInDB e st ''error'' messageString (Plain JUndefined) (Some fullTsStack))
                (emit ExitTimer)))"

definition fastify_trace :: "env \<Rightarrow> state \<Rightarrow> jsval \<Rightarrow> unit comp" where
  "fastify_trace e st msg = ret ()"

section \<open>Store lifecycle\<close>

definition connection_string :: "mysql_config \<Rightarrow> string \<Rightarrow> string \<Rightarrow> string" where
  "connection_string m db params =
     ''mysql://'' @ user m @ '':'' @ password m @ ''@'' @ host m @ '':'' @ show_nat (port m)
       @ ''/'' @ db @ params"

text \<open>\<open>config.mysql.database || 'logs'\<close>.\<close>

definition database_name :: "mysql_config \<Rightarrow> string" where
  "database_name m =
     (case database m of
        None \<Rightarrow> ''logs''
      | Some d \<Rightarrow> if d = [] then ''logs'' else d)"

text \<open>The outer \<open>catch\<close> of \<open>initializeConnection\<close>: the call ends, the flag stays as it is.\<close>

definition init_failed :: "state \<Rightarrow> effect list \<Rightarrow> state \<times> init_task option \<times> effect list" where
  "init_failed st done = (st, None, done @ [ConsoleError ''Failed to initialize logs database:''])"

text \<open>The last statement of the \<open>try\<close> block: \<open>dbInitialized = true\<close>.\<close>

definition init_finished :: "state \<Rightarrow> effect list \<Rightarrow> state \<times> init_task option \<times> effect list" where
  "init_finished st done = (st \<lparr> dbInitialized := True \<rparr>, None, done)"

text \<open>The inner \<open>catch\<close> (of the migration): it logs, and the call goes on to set the flag.\<close>

definition migration_failed :: "state \<Rightarrow> effect list \<Rightarrow> state \<times> init_task option \<times> effect list" where
  "migration_failed st done =
     init_finished st (done @ [ConsoleError ''[log-lib] Migration failed (non-critical):''])"

text \<open>A call of \<open>initializeConnection\<close> from its start to its first \<open>await\<close>.\<close>

definition initializeConnection :: "env \<Rightarrow> config \<Rightarrow> state \<Rightarrow> state \<times> effect list" where
  "initializeConnection e cfg st =
     (case mysql cfg of
        None \<Rightarrow> (st, [])
      | Some m \<Rightarrow>
          if dbInitialized st then (st, [])
          else if pool_throws e
          then (st, [ConsoleError ''Failed to initialize logs database:''])
          else
            let tempConn = pools st;
                st1 = st \<lparr> pools := Suc tempConn \<rparr>;
                made = [CreatePool tempConn
                          (connection_string m [] ''?connectionLimit=1&waitForConnections=true'')]
            in if query_throws e
               then (st1, made @ [ConsoleError ''Failed to initialize logs database:''])
               else (st1 \<lparr> inits := inits st1 @ [AwaitCreateDb tempConn m] \<rparr>,
                     made @ [Query tempConn (CreateDatabase (database_name m))]))"

text \<open>A suspended call goes on when the promise it awaits settles, up to its next
  \<open>await\<close> (\<open>Some\<close> of the new suspension) or to its end (\<open>None\<close>).\<close>

definition resume ::
  "env \<Rightarrow> init_task \<Rightarrow> outcome \<Rightarrow> state \<Rightarrow> state \<times> init_task option \<times> effect list" where
  "resume e task oc st =
     (case task of
        AwaitCreateDb tempConn m \<Rightarrow>
          (case oc of
             Rejected \<Rightarrow> init_failed st []
           | Resolved n \<Rightarrow> (st, Some (AwaitDispose m), [Dispose tempConn]))
      | AwaitDispose m \<Rightarrow>
          (case oc of
             Rejected \<Rightarrow> init_failed st []
           | Resolved n \<Rightarrow>
               if pool_throws e then init_failed st []
               else
                 let c = pools st;
                     st1 = st \<lparr> conn := Some c, pools := Suc c \<rparr>;
                     made = [CreatePool c
                               (connection_string m (database_name m)
                                  ''?connectionLimit=3&waitForConnections=true'')]
                 in (case conn_query e st1 CreateTable of
                       (es, Inl x) \<Rightarrow> init_failed st1 (made @ es)
                     | (es, Inr u) \<Rightarrow> (st1, Some AwaitCreateTable, made @ es)))
      | AwaitCreateTable \<Rightarrow>
          (case oc of
             Rejected \<Rightarrow> init_failed st []
           | Resolved n \<Rightarrow>
               (case conn_query e st ShowColumns of
                  (es, Inl x) \<Rightarrow> migration_failed st es
                | (es, Inr u) \<Rightarrow> (st, Some AwaitShowColumns, es)))
      | AwaitShowColumns \<Rightarrow>
          (case oc of
             Rejected \<Rightarrow> migration_failed st []
           | Resolved n \<Rightarrow>
               if n = 0
               then
                 (case seq (emit (ConsoleLog ''[log-lib] Running migration: Adding stacktrace column...''))
                           (conn_query e st AlterTable) of
                    (es, Inl x) \<Rightarrow> migration_failed st es
                  | (es, Inr u) \<Rightarrow> (st, Some AwaitAlterTable, es))
               else init_finished st [])
      | AwaitAlterTable \<Rightarrow>
          (case oc of
             Rejected \<Rightarrow> migration_failed st []
           | Resolved n \<Rightarrow>
               init_finished st
                 [ConsoleLog ''[log-lib] Migration complete: stacktrace column added'']))"

text \<open>\<open>a || b\<close> on an optional string: an absent or empty \<open>a\<close> gives \<open>b\<close>.\<close>

definition or_else :: "string option \<Rightarrow> string \<Rightarrow> string" where
  "or_else a b = (case a of None \<Rightarrow> b | Some s \<Rightarrow> if s = [] then b else s)"

text \<open>\<open>createLogger\<close>, up to the first \<open>await\<close> of the initialization it starts. The
  fault hooks it registers with \<open>process.on\<close> are not part of the model.\<close>

definition createLogger :: "env \<Rightarrow> config \<Rightarrow> state \<Rightarrow> state \<times> effect list" where
  "createLogger e cfg st =
     (let configuredLevel =
            or_else (logLevel cfg)
              (or_else (env_log_level e) (if dev e then ''debug'' else ''info''));
          st1 = st \<lparr> currentLogLevel :=
                       (case LOG_LEVELS configuredLevel of Some n \<Rightarrow> n | None \<Rightarrow> 1) \<rparr>
      in if mysql cfg \<noteq> None then initializeConnection e cfg st1 else (st1, []))"

section \<open>Executions\<close>

datatype call =
    Info jsval jsval
  | Error jsval jsval
  | ErrorEnriched jsval jsval jsval
  | Warn jsval jsval
  | Debug jsval jsval
  | FastifyInfo jsval
  | FastifyError jsval "jsval list"
  | FastifyWarn jsval
  | FastifyDebug jsval
  | FastifyFatal jsval
  | FastifyTrace jsval

fun perform :: "env \<Rightarrow> state \<Rightarrow> call \<Rightarrow> unit comp" where
  "perform e st (Info message meta) = logger_info e st message meta"
| "perform e st (Error message meta) = logger_error e st message meta"
| "perform e st (ErrorEnriched message error meta) = logger_errorEnriched e st message error meta"
| "perform e st (Warn message meta) = logger_warn e st message meta"
| "perform e st (Debug message meta) = logger_debug e st message meta"
| "perform e st (FastifyInfo msg) = fastify_info e st msg"
| "perform e st (FastifyError msg args) = fastify_error e st msg args"
| "perform e st (FastifyWarn msg) = fastify_warn e st msg"
| "perform e st (FastifyDebug msg) = fastify_debug e st msg"
| "perform e st (FastifyFatal msg) = fastify_fatal e st msg"
| "perform e st (FastifyTrace msg) = fastify_trace e st msg"

text \<open>What happens in the process, one event at a time: a logger is created, the promise
  awaited by the \<open>i\<close>-th suspended initialization settles, a logger method is called, or
  the promise of a detached insert settles.\<close>

datatype action =
    CreateLogger config
  | Settle nat outcome
  | Call call
  | InsertSettled outcome

definition remove_nth :: "nat \<Rightarrow> 'a list \<Rightarrow> 'a list" where
  "remove_nth i xs = take i xs @ drop (Suc i) xs"

definition step :: "env \<Rightarrow> action \<Rightarrow> state \<Rightarrow> state \<times> effect list" where
  "step e a st =
     (case a of
        CreateLogger cfg \<Rightarrow> createLogger e cfg st
      | Settle i oc \<Rightarrow>
          if i < length (inits st)
          then (case resume e (inits st ! i) oc st of
                  (st', Some task, es) \<Rightarrow> (st' \<lparr> inits := (inits st) [i := task] \<rparr>, es)
                | (st', None, es) \<Rightarrow> (st' \<lparr> inits := remove_nth i (inits st) \<rparr>, es))
          else (st, [])
      | Call c \<Rightarrow> (st, fst (perform e st c))
      | InsertSettled oc \<Rightarrow> (st, fst (insert_settled e oc)))"

fun run :: "(env \<times> action) list \<Rightarrow> state \<Rightarrow> state \<times> effect list" where
  "run [] st = (st, [])"
| "run ((e, a) # rest) st =
     (case step e a st of
        (st', es) \<Rightarrow> (case run rest st' of (st'', es') \<Rightarrow> (st'', es @ es')))"


text \<open>The effects that reach the store over the network.\<close>

fun is_network :: "effect \<Rightarrow> bool" where
  "is_network (CreatePool c s) = True"
| "is_network (Query c q) = True"
| "is_network (Dispose c) = True"
| "is_network f = False"

fun is_insert :: "effect \<Rightarrow> bool" where
  "is_insert (Query c (Insert l m d s)) = True"
| "is_insert f = False"

fun is_console :: "effect \<Rightarrow> bool" where
  "is_console (ConsoleLog s) = True"
| "is_console (ConsoleError s) = True"
| "is_console f = False"

fun is_file_io :: "effect \<Rightarrow> bool" where
  "is_file_io (ExistsSync p) = True"
| "is_file_io (ReadFileSync p) = True"
| "is_file_io f = False"

text \<open>\<open>cause_path h v as\<close>: following \<open>cause\<close> from the value \<open>v\<close> visits the objects \<open>as\<close>
  in this order and then meets a value that is no object.\<close>

fun cause_path :: "jsobj list \<Rightarrow> jsval \<Rightarrow> nat list \<Rightarrow> bool" where
  "cause_path h v [] = (get_obj h v = None)"
| "cause_path h v (a # as) = (v = JRef a \<and> a < length h \<and> cause_path h (obj_cause (h ! a)) as)"

section \<open>Lifecycle invariant\<close>

text \<open>A suspended initialization that has already assigned \<open>conn\<close>.\<close>

fun past_pool :: "init_task \<Rightarrow> bool" where
  "past_pool AwaitCreateTable = True"
| "past_pool AwaitShowColumns = True"
| "past_pool AwaitAlterTable = True"
| "past_pool t = False"

text \<open>The readiness flag is set only with a pool assigned, and every initialization that
  is past the assignment of \<open>conn\<close> finds it assigned.\<close>

definition lifecycle_inv :: "state \<Rightarrow> bool" where
  "lifecycle_inv st =
     ((dbInitialized st \<longrightarrow> conn st \<noteq> None)
      \<and> (\<forall>t \<in> set (inits st). past_pool t \<longrightarrow> conn st \<noteq> None))"



section \<open>Example environments\<close>

text \<open>A process run from compiled JavaScript outside \<open>dev\<close> mode: the stacks name no
  \<open>.ts\<close> file, so no line matches a frame pattern; the serializer gives \<open>{}\<close>.\<close>

definition base_env :: env where
  "base_env = \<lparr> heap = [], env_id = None, env_log_level = None,
      clock = ''2024-01-01T12:34:56.789Z'',
      jsonStringify = (\<lambda>m. JsonText ''{}''), obj_to_string = (\<lambda>a. ''[object Object]''),
      relativize_line = (\<lambda>l. l), match_frame = (\<lambda>l. None),
      capture_stack = ''Error'' @ [nl] @ ''    at Object.info (/app/node_modules/log-lib/dist/logger.js:300:27)''
                        @ [nl] @ ''    at main (/app/dist/index.js:5:8)'',
      callsite_stack = ''Error: __callsite__'' @ [nl] @ ''    at main (/app/dist/index.js:5:8)'',
      path_join_cwd = (\<lambda>f. ''/app/'' @ f), file_exists = (\<lambda>p. False),
      read_file = (\<lambda>p. None), pool_throws = False, query_throws = False \<rparr>"

definition error_obj :: "string \<Rightarrow> string \<Rightarrow> jsval \<Rightarrow> jsobj" where
  "error_obj n m c = \<lparr> obj_is_error = True, obj_name = JStr n, obj_message = JStr m,
      obj_stack = None, obj_cause = c \<rparr>"

definition chain_env :: env where
  "chain_env = base_env \<lparr> heap :=
     [error_obj ''Error'' ''a'' (JRef 1),
      error_obj ''TypeError'' ''b'' (JRef 2),
      error_obj ''RangeError'' ''c'' JUndefined] \<rparr>"

definition cycle_env :: env where
  "cycle_env = base_env \<lparr> heap :=
     [error_obj ''Error'' ''a'' (JRef 1),
      error_obj ''TypeError'' ''b'' (JRef 0)] \<rparr>"

text \<open>A chain whose causes are a named error, a plain object with a message, an array,
  an object that the serializer throws on, and an object with a long serialization.\<close>

definition plain_obj :: "jsval \<Rightarrow> jsval \<Rightarrow> jsobj" where
  "plain_obj m c = \<lparr> obj_is_error = False, obj_name = JUndefined, obj_message = m,
      obj_stack = None, obj_cause = c \<rparr>"

definition fallback_env :: env where
  "fallback_env = base_env \<lparr>
     heap := [error_obj ''Error'' ''a'' (JRef 1),
              error_obj ''TypeError'' ''b'' (JRef 2),
              plain_obj (JStr ''disk full'') (JRef 3),
              plain_obj JUndefined (JRef 4),
              plain_obj (JNum 5) (JRef 5),
              plain_obj JUndefined JUndefined],
     jsonStringify := (\<lambda>m. if m = Plain (JRef 3) then JsonText ''[7]''
                            else if m = Plain (JRef 4) then JsonThrows
                            else if m = Plain (JRef 5) then JsonText (replicate 2001 CHR ''z'')
                            else JsonText ''{}'') \<rparr>"

text \<open>States: the store Ready after one initialization, with the minimum level
  \<open>info\<close> and with the minimum level \<open>warn\<close>.\<close>

definition ready_state :: state where
  "ready_state = \<lparr> conn = Some 1, dbInitialized = True, currentLogLevel = 1,
                    inits = [], pools = 2 \<rparr>"

definition warn_ready_state :: state where
  "warn_ready_state = ready_state \<lparr> currentLogLevel := 2 \<rparr>"

text \<open>Environments: one where serialization and \<open>query\<close> throw, one where the
  serialized metadata has 2500 characters, and one whose error has a stack frame that
  resolves to a readable file.\<close>

definition failing_env :: env where
  "failing_env = base_env \<lparr> jsonStringify := (\<lambda>m. JsonThrows), query_throws := True \<rparr>"

text \<open>An environment where only the enriched metadata of an error fails to serialize,
  over the heap of \<open>chain_env\<close>.\<close>

definition store_failing_env :: env where
  "store_failing_env = chain_env \<lparr>
     jsonStringify := (\<lambda>m. case m of Enriched s n c d \<Rightarrow> JsonThrows | _ \<Rightarrow> JsonText ''{}'') \<rparr>"

definition long_env :: env where
  "long_env = base_env \<lparr> jsonStringify := (\<lambda>m. JsonText (replicate 2500 CHR ''m'')) \<rparr>"

definition frame_env :: env where
  "frame_env = base_env \<lparr>
     heap := [\<lparr> obj_is_error = True, obj_name = JStr ''Error'', obj_message = JStr ''boom'',
               obj_stack = Some (''Error: boom'' @ [nl] @ ''    at f (/app/src/a.ts:2:7)''),
               obj_cause = JUndefined \<rparr>],
     match_frame := (\<lambda>l. if str_includes l ''a.ts''
                          then Some \<lparr> frame_file = Some ''/app/src/a.ts'', frame_line = Some 2,
                                      frame_column = Some 7 \<rparr>
                          else None),
     file_exists := (\<lambda>p. True),
     read_file := (\<lambda>p. Some (''let a = 1;'' @ [nl] @ ''throw new Error();'')) \<rparr>"

text \<open>Configurations with and without store settings, and executions: \<open>startup\<close>
  creates a logger with store settings and lets its initialization complete
  (\<open>warn_startup\<close> does so with the minimum level \<open>warn\<close>);
  \<open>created_plain\<close> only creates a logger without store settings;
  \<open>quiet_run\<close> calls \<open>debug("x")\<close> on a logger without store settings;
  \<open>shared_run\<close> calls \<open>info("x")\<close> on such a logger after \<open>startup\<close>.\<close>

definition store_config :: config where
  "store_config = \<lparr> mysql = Some \<lparr> host = ''localhost'', port = 3306, user = ''root'',
                                     password = ''test'', database = None \<rparr>,
                     logLevel = None \<rparr>"


definition startup :: "(env \<times> action) list" where
  "startup = [(base_env, CreateLogger store_config),
              (base_env, Settle 0 (Resolved 0)),
              (base_env, Settle 0 (Resolved 0)),
              (base_env, Settle 0 (Resolved 0)),
              (base_env, Settle 0 (Resolved 1))]"

definition warn_startup :: "(env \<times> action) list" where
  "warn_startup =
     (base_env, CreateLogger (store_config \<lparr> logLevel := Some ''warn'' \<rparr>)) # tl startup"




section \<open>Verified properties\<close>

subsection \<open>Cause-chain walker\<close>

lemma reaches_lt: "reaches h v b \<Longrightarrow> b < length h"
  by (induction rule: reaches.induct) auto

lemma finite_reaches: "finite {b. reaches h v b}"
proof (rule finite_subset)
  show "{b. reaches h v b} \<subseteq> {..<length h}"
    using reaches_lt by auto
qed simp

lemma reaches_JRef:
  "a < length h \<Longrightarrow> {b. reaches h (JRef a) b} = insert a {b. reaches h (obj_cause (h ! a)) b}"
proof (intro set_eqI iffI)
  fix b assume "b \<in> {b. reaches h (JRef a) b}"
  then have "reaches h (JRef a) b" by simp
  then show "b \<in> insert a {b. reaches h (obj_cause (h ! a)) b}"
    by (cases rule: reaches.cases) auto
next
  fix b assume a: "a < length h" and "b \<in> insert a {b. reaches h (obj_cause (h ! a)) b}"
  then show "b \<in> {b. reaches h (JRef a) b}"
    by (auto intro: reaches.intros)
qed

lemma cause_loop_length:
  "length (cause_loop e err visited cur chain)
     \<le> length chain + card ({b. reaches (heap e) cur b} - visited - {a. err = JRef a})"
proof (induction e err visited cur chain rule: cause_loop.induct)
  case (1 e err visited a chain)
  let ?h = "heap e"
  let ?R = "{b. reaches ?h (obj_cause (?h ! a)) b}"
  let ?E = "{a. err = JRef a}"
  let ?chain' = "if JRef a \<noteq> err then chain @ [cause_title e (JRef a) (?h ! a)] else chain"
  show ?case
  proof (cases "a < length ?h \<and> a \<notin> visited")
    case False
    then show ?thesis by auto
  next
    case True
    then have R: "{b. reaches ?h (JRef a) b} = insert a ?R"
      by (simp add: reaches_JRef)
    have step: "cause_loop e err visited (JRef a) chain
                  = cause_loop e err (insert a visited) (obj_cause (?h ! a)) ?chain'"
      using True by simp
    have IH: "length (cause_loop e err (insert a visited) (obj_cause (?h ! a)) ?chain')
                \<le> length ?chain' + card (?R - insert a visited - ?E)"
      using "1.IH"[OF True] .
    have fin: "finite (insert a ?R - visited - ?E)"
      using finite_reaches[of ?h "obj_cause (?h ! a)"] by simp
    have "length ?chain' + card (?R - insert a visited - ?E)
            \<le> length chain + card (insert a ?R - visited - ?E)"
    proof (cases "JRef a = err")
      case True
      have "?R - insert a visited - ?E \<subseteq> insert a ?R - visited - ?E" by auto
      then have "card (?R - insert a visited - ?E) \<le> card (insert a ?R - visited - ?E)"
        using fin by (rule card_mono[rotated])
      with True show ?thesis by simp
    next
      case False
      then have "a \<notin> ?E" by auto
      with True have eq: "insert a ?R - visited - ?E = insert a (?R - insert a visited - ?E)"
        by auto
      have "finite (?R - insert a visited - ?E)"
        using finite_reaches[of ?h "obj_cause (?h ! a)"] by simp
      then have "card (insert a (?R - insert a visited - ?E))
                   = Suc (card (?R - insert a visited - ?E))"
        by simp
      with False eq show ?thesis by simp
    qed
    with IH show ?thesis unfolding step R by linarith
  qed
qed simp_all

lemma reaches_cause_nodes:
  "{b. reaches h err b} - {a. err = JRef a} \<subseteq> cause_nodes h err"
  by (auto simp: cause_nodes_def elim: reaches.cases)

lemma finite_cause_nodes: "finite (cause_nodes h err)"
proof (rule finite_subset)
  show "cause_nodes h err \<subseteq> {..<length h}"
    using reaches_lt by (auto simp: cause_nodes_def)
qed simp

text \<open>
  Claim C6. \<open>buildCauseChain\<close> is a total function (its loop was shown to terminate on
  every heap, cyclic or not, when it was defined), and the sequence it returns is no
  longer than the number of distinct objects reachable from the error through its cause
  references.
\<close>

theorem buildCauseChain_length_bound:
  "length (buildCauseChain e err) \<le> card (cause_nodes (heap e) err)"
proof -
  have "length (buildCauseChain e err)
          \<le> card ({b. reaches (heap e) err b} - {} - {a. err = JRef a})"
    using cause_loop_length[of e err "{}" err "[]"] by (simp add: buildCauseChain_def)
  also have "\<dots> \<le> card (cause_nodes (heap e) err)"
    using reaches_cause_nodes[of "heap e" err] finite_cause_nodes[of "heap e" err]
    by (simp add: card_mono)
  finally show ?thesis .
qed

theorem buildCauseChain_length_bound_witness:
  "buildCauseChain cycle_env (JRef 0) = [''TypeError: b'']
   \<and> length (buildCauseChain cycle_env (JRef 0)) \<le> card (cause_nodes (heap cycle_env) (JRef 0))"
  using buildCauseChain_length_bound[of cycle_env "JRef 0"]
  by (simp add: buildCauseChain_def cycle_env_def error_obj_def cause_title_def)

lemma cause_loop_path:
  "cause_path (heap e) cur as \<Longrightarrow> distinct as \<Longrightarrow> set as \<inter> visited = {} \<Longrightarrow>
   \<forall>a \<in> set as. JRef a \<noteq> err \<Longrightarrow>
   cause_loop e err visited cur chain
     = chain @ map (\<lambda>a. cause_title e (JRef a) (heap e ! a)) as"
proof (induction as arbitrary: cur visited chain)
  case Nil
  then show ?case by (cases cur) (auto split: if_splits)
next
  case (Cons a as)
  from Cons.prems(1) have cur: "cur = JRef a" and a: "a < length (heap e)"
    and p: "cause_path (heap e) (obj_cause (heap e ! a)) as" by simp_all
  from Cons.prems(3) have nv: "a \<notin> visited" by auto
  from Cons.prems(4) have ne: "JRef a \<noteq> err" by simp
  have "cause_loop e err visited cur chain
          = cause_loop e err (insert a visited) (obj_cause (heap e ! a))
              (chain @ [cause_title e (JRef a) (heap e ! a)])"
    using cur a nv ne by simp
  also have "\<dots> = (chain @ [cause_title e (JRef a) (heap e ! a)])
                   @ map (\<lambda>a. cause_title e (JRef a) (heap e ! a)) as"
  proof (rule Cons.IH[OF p])
    show "distinct as" using Cons.prems(2) by simp
    show "set as \<inter> insert a visited = {}" using Cons.prems(2,3) by auto
    show "\<forall>a\<in>set as. JRef a \<noteq> err" using Cons.prems(4) by simp
  qed
  finally show ?case by simp
qed

lemma cause_path_valid: "cause_path h v as \<Longrightarrow> a \<in> set as \<Longrightarrow> a < length h"
  by (induction as arbitrary: v) auto

lemma safeToStringMessage_object:
  "a < length (heap e) \<Longrightarrow>
   safeToStringMessage e (JRef a) =
     (let fallback = (case jsonStringify e (Plain (JRef a)) of
                        JsonText t \<Rightarrow> take 2000 t
                      | JsonUndefined \<Rightarrow> obj_to_string e a
                      | JsonThrows \<Rightarrow> obj_to_string e a)
      in case obj_message (heap e ! a) of
           JStr m \<Rightarrow> if m \<noteq> [] then m else fallback
         | _ \<Rightarrow> fallback)"
  by (simp add: safeToStringMessage_def json_or_string_def Let_def
        split: jsval.splits jsres.splits)

text \<open>
  Claim C7. When the cause references of an error \<open>a0\<close> lead through the distinct objects
  \<open>as\<close> and end at a value that is no object, \<open>buildCauseChain\<close> returns one title per
  object of \<open>as\<close>, in chain order and without a title for \<open>a0\<close> itself. The title of an
  object with a truthy name is \<open>name: message\<close>. Otherwise it is the best-effort
  conversion: the object's message when that is a non-empty string, else the first 2000
  characters of its serialization, else (the serializer throws or gives \<open>undefined\<close>)
  \<open>String\<close> of the object. With \<open>as = []\<close> (no cause) the result is empty.
\<close>

theorem buildCauseChain_follows_causes:
  assumes "a0 < length (heap e)"
    and "cause_path (heap e) (obj_cause (heap e ! a0)) as"
    and "distinct (a0 # as)"
  shows "buildCauseChain e (JRef a0)
           = map (\<lambda>a. let ob = heap e ! a;
                           fallback = (case jsonStringify e (Plain (JRef a)) of
                                         JsonText t \<Rightarrow> take 2000 t
                                       | JsonUndefined \<Rightarrow> obj_to_string e a
                                       | JsonThrows \<Rightarrow> obj_to_string e a)
                       in if truthy (obj_name ob)
                          then toStr e (obj_name ob) @ '': '' @ toStr e (obj_message ob)
                          else (case obj_message ob of
                                  JStr m \<Rightarrow> if m \<noteq> [] then m else fallback
                                | _ \<Rightarrow> fallback)) as"
proof -
  have "buildCauseChain e (JRef a0)
          = cause_loop e (JRef a0) {a0} (obj_cause (heap e ! a0)) []"
    using assms(1) by (simp add: buildCauseChain_def)
  also have "\<dots> = [] @ map (\<lambda>a. cause_title e (JRef a) (heap e ! a)) as"
  proof (rule cause_loop_path[OF assms(2)])
    show "distinct as" using assms(3) by simp
    show "set as \<inter> {a0} = {}" using assms(3) by simp
    show "\<forall>a\<in>set as. JRef a \<noteq> JRef a0" using assms(3) by auto
  qed
  also have "\<dots> = map (\<lambda>a. let ob = heap e ! a;
                           fallback = (case jsonStringify e (Plain (JRef a)) of
                                         JsonText t \<Rightarrow> take 2000 t
                                       | JsonUndefined \<Rightarrow> obj_to_string e a
                                       | JsonThrows \<Rightarrow> obj_to_string e a)
                       in if truthy (obj_name ob)
                          then toStr e (obj_name ob) @ '': '' @ toStr e (obj_message ob)
                          else (case obj_message ob of
                                  JStr m \<Rightarrow> if m \<noteq> [] then m else fallback
                                | _ \<Rightarrow> fallback)) as"
  proof -
    have "cause_title e (JRef a) (heap e ! a)
            = (let ob = heap e ! a;
                   fallback = (case jsonStringify e (Plain (JRef a)) of
                                 JsonText t \<Rightarrow> take 2000 t
                               | JsonUndefined \<Rightarrow> obj_to_string e a
                               | JsonThrows \<Rightarrow> obj_to_string e a)
               in if truthy (obj_name ob)
                  then toStr e (obj_name ob) @ '': '' @ toStr e (obj_message ob)
                  else (case obj_message ob of
                          JStr m \<Rightarrow> if m \<noteq> [] then m else fallback
                        | _ \<Rightarrow> fallback))"
      if "a \<in> set as" for a
    proof -
      from cause_path_valid[OF assms(2) that] have "a < length (heap e)" .
      then show ?thesis
        by (simp add: cause_title_def safeToStringMessage_object Let_def)
    qed
    then show ?thesis by simp
  qed
  finally show ?thesis .
qed

theorem buildCauseChain_follows_causes_witness:
  "0 < length (heap chain_env)
   \<and> cause_path (heap chain_env) (obj_cause (heap chain_env ! 0)) [1, 2]
   \<and> distinct [0, 1, 2::nat]
   \<and> buildCauseChain chain_env (JRef 0) = [''TypeError: b'', ''RangeError: c'']
   \<and> 0 < length (heap fallback_env)
   \<and> cause_path (heap fallback_env) (obj_cause (heap fallback_env ! 0)) [1, 2, 3, 4, 5]
   \<and> distinct [0, 1, 2, 3, 4, 5::nat]
   \<and> buildCauseChain fallback_env (JRef 0)
        = [''TypeError: b'', ''disk full'', ''[7]'', ''[object Object]'', replicate 2000 CHR ''z'']
   \<and> buildCauseChain chain_env (JRef 2) = []"
proof -
  have h1: "0 < length (heap chain_env)"
    by (simp add: chain_env_def)
  have h2: "cause_path (heap chain_env) (obj_cause (heap chain_env ! 0)) [1, 2]"
    by (simp add: chain_env_def error_obj_def)
  have h3: "distinct (0 # [1, 2::nat])" by simp
  have g1: "0 < length (heap fallback_env)"
    by (simp add: fallback_env_def)
  have g2: "cause_path (heap fallback_env) (obj_cause (heap fallback_env ! 0)) [1, 2, 3, 4, 5]"
    by (simp add: fallback_env_def error_obj_def plain_obj_def)
  have g3: "distinct (0 # [1, 2, 3, 4, 5::nat])" by simp
  have k1: "2 < length (heap chain_env)"
    by (simp add: chain_env_def)
  have k2: "cause_path (heap chain_env) (obj_cause (heap chain_env ! 2)) []"
    by (simp add: chain_env_def error_obj_def)
  have k3: "distinct (2 # ([]::nat list))" by simp
  have a: "buildCauseChain chain_env (JRef 0) = [''TypeError: b'', ''RangeError: c'']"
    using buildCauseChain_follows_causes[OF h1 h2 h3]
    by (simp add: chain_env_def error_obj_def)
  have b: "buildCauseChain fallback_env (JRef 0)
        = [''TypeError: b'', ''disk full'', ''[7]'', ''[object Object]'', replicate 2000 CHR ''z'']"
    using buildCauseChain_follows_causes[OF g1 g2 g3]
    by (simp add: fallback_env_def error_obj_def plain_obj_def base_env_def)
  have c: "buildCauseChain chain_env (JRef 2) = []"
    using buildCauseChain_follows_causes[OF k1 k2 k3] by simp
  from h1 h2 h3 g1 g2 g3 a b c show ?thesis by simp
qed

subsection \<open>Computations and their effects\<close>

lemma fst_bind: "fst (bind m f) = fst m @ (case snd m of Inl x \<Rightarrow> [] | Inr v \<Rightarrow> fst (f v))"
  by (auto simp: bind_def split: prod.splits sum.splits)

lemma snd_bind: "snd (bind m f) = (case snd m of Inl x \<Rightarrow> Inl x | Inr v \<Rightarrow> snd (f v))"
  by (auto simp: bind_def split: prod.splits sum.splits)

lemma fst_seq: "fst (seq m n) = fst m @ (case snd m of Inl x \<Rightarrow> [] | Inr v \<Rightarrow> fst n)"
  by (simp add: seq_def fst_bind)

lemma snd_seq: "snd (seq m n) = (case snd m of Inl x \<Rightarrow> Inl x | Inr v \<Rightarrow> snd n)"
  by (simp add: seq_def snd_bind)


lemma filter_seq:
  "filter P (fst m) = [] \<Longrightarrow> filter P (fst n) = [] \<Longrightarrow> filter P (fst (seq m n)) = []"
  by (simp add: fst_seq split: sum.splits)

lemma filter_ret: "filter P (fst (ret v)) = []"
  by (simp add: ret_def)

lemma filter_throw: "filter P (fst (throw x)) = []"
  by (simp add: throw_def)

lemma filter_emit: "\<not> P f \<Longrightarrow> filter P (fst (emit f)) = []"
  by (simp add: emit_def)

lemma filter_try_catch:
  "filter P (fst m) = [] \<Longrightarrow> (\<And>x. filter P (fst (h x)) = []) \<Longrightarrow>
   filter P (fst (try_catch m h)) = []"
proof (cases m)
  case (Pair es r)
  assume a: "filter P (fst m) = []" and b: "\<And>x. filter P (fst (h x)) = []"
  show ?thesis
  proof (cases r)
    case (Inl x)
    with Pair a b[of x] show ?thesis
      by (cases "h x") (simp add: try_catch_def)
  next
    case (Inr v)
    with Pair a show ?thesis by (simp add: try_catch_def)
  qed
qed

subsection \<open>Console renderer\<close>

lemma below_minimum_flag:
  "below_minimum (st \<lparr> dbInitialized := b \<rparr>) level = below_minimum st level"
  by (simp add: below_minimum_def split: option.splits)

lemma log_flag:
  "log e (st \<lparr> dbInitialized := b \<rparr>) level message meta loc = log e st level message meta loc"
  by (simp add: log_def below_minimum_flag)

lemma meta_text_cases:
  "meta_text e meta = ([], Inl JsonFailure) \<or> (\<exists>t. meta_text e meta = ([], Inr t))"
  by (simp add: meta_text_def ret_def throw_def split: jsres.splits)

lemma log_effects:
  "fst (log e st level message meta loc) = [] \<or>
   (\<exists>s. fst (log e st level message meta loc) = [ConsoleLog s])"
  using meta_text_cases[of e meta]
  by (auto simp: log_def bind_def ret_def emit_def)

lemma filter_log:
  "(\<And>s. \<not> P (ConsoleLog s)) \<Longrightarrow> filter P (fst (log e st level message meta loc)) = []"
  using log_effects[of e st level message meta loc] by auto

lemma filter_print_cause_chain:
  "(\<And>s. \<not> P (ConsoleLog s)) \<Longrightarrow> filter P (fst (print_cause_chain chain)) = []"
  by (simp add: print_cause_chain_def emit_def ret_def)

lemma snd_print_cause_chain: "snd (print_cause_chain chain) = Inr ()"
  by (simp add: print_cause_chain_def emit_def ret_def)

subsection \<open>Stack printing\<close>

lemma snd_buildCodeFrame: "\<exists>t. snd (buildCodeFrame e fr) = Inr t"
  by (auto simp: buildCodeFrame_def try_catch_def seq_def bind_def ret_def throw_def emit_def
        Let_def split: option.splits)


lemma snd_printStackEnhanced: "snd (printStackEnhanced e v) = Inr ()"
proof -
  have "snd (bind (buildCodeFrame e fr) (\<lambda>codeFrame. if codeFrame \<noteq> [] then emit (ConsoleLog (g codeFrame)) else ret ())) = Inr ()"
    for fr g
    using snd_buildCodeFrame[of e fr] by (auto simp: snd_bind emit_def ret_def)
  then show ?thesis
    by (simp add: printStackEnhanced_def Let_def snd_seq emit_def ret_def split: option.splits)
qed


lemma filter_printStackEnhanced_quiet:
  "\<not> dev e \<Longrightarrow> (\<And>s. \<not> P (ConsoleLog s)) \<Longrightarrow> filter P (fst (printStackEnhanced e v)) = []"
  unfolding printStackEnhanced_def Let_def
  by (auto intro!: filter_seq filter_emit filter_ret split: option.splits)

lemma filter_print_stack_if_any:
  "\<not> dev e \<Longrightarrow> (\<And>s. \<not> P (ConsoleLog s)) \<Longrightarrow> filter P (fst (print_stack_if_any e ob v)) = []"
  by (simp add: print_stack_if_any_def filter_ret filter_printStackEnhanced_quiet
        split: option.splits)

lemma snd_print_stack_if_any: "snd (print_stack_if_any e ob v) = Inr ()"
  by (simp add: print_stack_if_any_def snd_printStackEnhanced ret_def split: option.splits)

subsection \<open>Store write\<close>

lemma storeInDB_not_ready:
  "conn st = None \<or> \<not> dbInitialized st \<Longrightarrow> storeInDB e st level message meta stack = ([], Inr ())"
  by (auto simp: storeInDB_def ret_def)

lemma storeInDB_ready:
  "conn st = Some c \<Longrightarrow> dbInitialized st \<Longrightarrow>
   storeInDB e st level message meta stack =
     (case jsonStringify e (safeMeta meta) of
        JsonText t \<Rightarrow>
          if query_throws e then ([ConsoleError ''Unexpected failure preparing log for DB''], Inr ())
          else ([Query c (Insert level (safeToStringMessage e message) (take 2000 t)
                            (case stack of None \<Rightarrow> [] | Some s \<Rightarrow> s))], Inr ())
      | JsonUndefined \<Rightarrow> ([ConsoleError ''Unexpected failure preparing log for DB''], Inr ())
      | JsonThrows \<Rightarrow> ([ConsoleError ''Unexpected failure preparing log for DB''], Inr ()))"
  by (simp add: storeInDB_def try_catch_def bind_def meta_slice_def conn_query_def
        ret_def throw_def emit_def split: jsres.splits)

lemma storeInDB_returns: "snd (storeInDB e st level message meta stack) = Inr ()"
proof (cases "conn st = None \<or> \<not> dbInitialized st")
  case True
  then show ?thesis by (simp add: storeInDB_not_ready)
next
  case False
  then obtain c where "conn st = Some c" "dbInitialized st" by auto
  then show ?thesis by (simp add: storeInDB_ready split: jsres.splits)
qed


lemma filter_storeInDB:
  "(\<And>s. \<not> P (ConsoleError s)) \<Longrightarrow> (\<And>c q. \<not> P (Query c q)) \<Longrightarrow>
   filter P (fst (storeInDB e st level message meta stack)) = []"
proof (cases "conn st = None \<or> \<not> dbInitialized st")
  case True
  then show ?thesis by (simp add: storeInDB_not_ready)
next
  case False
  assume a: "\<And>s. \<not> P (ConsoleError s)" "\<And>c q. \<not> P (Query c q)"
  from False obtain c where "conn st = Some c" "dbInitialized st" by auto
  then show ?thesis using a by (simp add: storeInDB_ready split: jsres.splits)
qed

lemma seq_ret: "seq (ret ()) n = n"
  by (cases n) (simp add: seq_def bind_def ret_def)

subsection \<open>The example environment\<close>

lemma base_env_fields:
  "heap base_env = []" "env_id base_env = None" "env_log_level base_env = None"
  "clock base_env = ''2024-01-01T12:34:56.789Z''"
  "jsonStringify base_env m = JsonText ''{}''"
  "obj_to_string base_env a = ''[object Object]''"
  "relativize_line base_env l = l" "match_frame base_env l = None"
  "path_join_cwd base_env f = ''/app/'' @ f" "file_exists base_env p = False"
  "read_file base_env p = None" "pool_throws base_env = False" "query_throws base_env = False"
  by (simp_all add: base_env_def)



lemma captureCallStack_base: "captureCallStack base_env = []"
  by (simp add: captureCallStack_def cleanStackTrace_def base_env_def nl_def is_ts_line_def
        starts_with_def)

lemma full_ts_base: "extractFullTsStacktrace base_env (Some []) = []"
  by (simp add: extractFullTsStacktrace_def)

lemma not_dev_base: "\<not> dev base_env"
  by (simp add: dev_def base_env_fields)

subsection \<open>Readiness gate, truncation and failure containment\<close>

text \<open>
  Claim C3. While the store is not Ready (\<open>conn\<close> is \<open>null\<close> or \<open>dbInitialized\<close> is false)
  \<open>storeInDB\<close> does nothing at all: no insert, no console output, no exception. Once the
  state is Ready the write is attempted: the call leaves a trace, and when the metadata
  serializes and \<open>query\<close> does not throw, the trace is exactly one insert on the pool.
\<close>

theorem storeInDB_gated_by_readiness:
  "(conn st = None \<or> \<not> dbInitialized st \<longrightarrow>
      storeInDB e st level message meta stack = ([], Inr ()))
   \<and> (conn st = Some c \<and> dbInitialized st \<longrightarrow> fst (storeInDB e st level message meta stack) \<noteq> [])
   \<and> (conn st = Some c \<and> dbInitialized st \<and> jsonStringify e (safeMeta meta) = JsonText t
        \<and> \<not> query_throws e \<longrightarrow>
      storeInDB e st level message meta stack =
        ([Query c (Insert level (safeToStringMessage e message) (take 2000 t)
                    (case stack of None \<Rightarrow> [] | Some s \<Rightarrow> s))], Inr ()))"
  by (auto simp: storeInDB_not_ready storeInDB_ready split: jsres.splits)

theorem storeInDB_gated_by_readiness_witness:
  "(conn initial_state = None \<or> \<not> dbInitialized initial_state)
   \<and> storeInDB base_env initial_state ''info'' (JStr ''x'') EmptyObject None = ([], Inr ())
   \<and> conn ready_state = Some 1 \<and> dbInitialized ready_state
   \<and> jsonStringify base_env (safeMeta EmptyObject) = JsonText ''{}'' \<and> \<not> query_throws base_env
   \<and> storeInDB base_env ready_state ''info'' (JStr ''x'') EmptyObject None
        = ([Query 1 (Insert ''info'' ''x'' ''{}'' [])], Inr ())"
  using storeInDB_gated_by_readiness[of initial_state base_env "''info''" "JStr ''x''" EmptyObject None 1 "''{}''"]
        storeInDB_gated_by_readiness[of ready_state base_env "''info''" "JStr ''x''" EmptyObject None 1 "''{}''"]
  by (simp add: initial_state_def ready_state_def base_env_fields safeMeta_def safeToStringMessage_def)

text \<open>
  Claim C2. \<open>storeInDB\<close> at a string message of 2001 characters, with metadata that
  serializes to 2500 characters and the store Ready: the metadata is cut to 2000
  characters and nothing is raised, but the message is stored whole, with its 2001
  characters (\<open>safeToStringMessage\<close> returns a string as it is).
\<close>

theorem long_string_message_stored_whole:
  "storeInDB long_env ready_state ''info'' (JStr (replicate 2001 CHR ''a'')) EmptyObject None
     = ([Query 1 (Insert ''info'' (replicate 2001 CHR ''a'') (replicate 2000 CHR ''m'') [])], Inr ())
   \<and> length (replicate 2001 CHR ''a'') = 2001"
proof -
  have "conn ready_state = Some 1" "dbInitialized ready_state"
    by (simp_all add: ready_state_def)
  then have "storeInDB long_env ready_state ''info'' (JStr (replicate 2001 CHR ''a'')) EmptyObject None
     = ([Query 1 (Insert ''info'' (safeToStringMessage long_env (JStr (replicate 2001 CHR ''a'')))
                    (take 2000 (replicate 2500 CHR ''m'')) [])], Inr ())"
    by (simp add: storeInDB_ready long_env_def base_env_fields safeMeta_def)
  moreover have "safeToStringMessage long_env (JStr (replicate 2001 CHR ''a'')) = replicate 2001 CHR ''a''"
    by (simp add: safeToStringMessage_def)
  moreover have "take 2000 (replicate 2500 CHR ''m'') = replicate 2000 CHR ''m''"
    by simp
  ultimately show ?thesis by simp
qed

lemma snd_perform_flag:
  "snd (perform e (st \<lparr> dbInitialized := b \<rparr>) c) = snd (perform e st c)"
proof (cases c)
  case (Info message meta)
  then show ?thesis
    by (simp add: logger_info_def Let_def snd_seq log_flag storeInDB_returns split: sum.splits)
next
  case (Error message meta)
  then show ?thesis
    by (simp add: logger_error_def Let_def snd_seq log_flag storeInDB_returns
          snd_print_stack_if_any snd_print_cause_chain snd_printStackEnhanced
          split: option.splits sum.splits)
next
  case (ErrorEnriched message error meta)
  then show ?thesis
    by (simp add: logger_errorEnriched_def Let_def snd_seq log_flag storeInDB_returns
          snd_print_stack_if_any snd_print_cause_chain snd_printStackEnhanced
          split: option.splits sum.splits)
next
  case (Warn message meta)
  then show ?thesis
    by (simp add: logger_warn_def Let_def snd_seq log_flag storeInDB_returns split: sum.splits)
next
  case (Debug message meta)
  then show ?thesis by (simp add: logger_debug_def Let_def log_flag)
next
  case (FastifyInfo msg)
  then show ?thesis by (simp add: fastify_info_def Let_def log_flag)
next
  case (FastifyError msg args)
  then show ?thesis
    by (simp add: fastify_error_def Let_def snd_seq snd_bind log_flag storeInDB_returns
          split: sum.splits)
next
  case (FastifyWarn msg)
  then show ?thesis
    by (simp add: fastify_warn_def Let_def snd_seq snd_bind log_flag storeInDB_returns
          split: sum.splits)
next
  case (FastifyDebug msg)
  then show ?thesis by (simp add: fastify_debug_def Let_def log_flag)
next
  case (FastifyFatal msg)
  then show ?thesis
    by (simp add: fastify_fatal_def Let_def snd_seq snd_bind log_flag storeInDB_returns
          emit_def split: sum.splits)
next
  case (FastifyTrace msg)
  then show ?thesis by (simp add: fastify_trace_def)
qed

lemma snd_insert_settled: "snd (insert_settled e oc) = Inr ()"
  by (simp add: insert_settled_def ret_def emit_def split: outcome.splits)

text \<open>
  Claim C4. \<open>storeInDB\<close> never raises, whatever fails inside it (serialization throwing
  or returning \<open>undefined\<close>, \<open>query\<close> throwing): the failure is caught and at most
  logged. The handler of the detached insert's promise never raises either, so the
  promise chain does not reject. And for every logger method, whether the call returns
  or raises is the same as with the store write skipped: nothing a method raises comes
  from the store write.
\<close>

theorem store_failure_never_propagates:
  "snd (storeInDB e st level message meta stack) = Inr ()
   \<and> snd (insert_settled e oc) = Inr ()
   \<and> snd (perform e st c) = snd (perform e (st \<lparr> dbInitialized := False \<rparr>) c)"
  by (simp add: storeInDB_returns snd_insert_settled snd_perform_flag)

theorem store_failure_never_propagates_witness:
  "storeInDB failing_env ready_state ''info'' (JStr ''x'') EmptyObject None
     = ([ConsoleError ''Unexpected failure preparing log for DB''], Inr ())
   \<and> snd (insert_settled failing_env Rejected) = Inr ()
   \<and> perform store_failing_env ready_state (Error (JRef 2) JUndefined)
       = ([ConsoleLog (log_line store_failing_env ''error'' (JStr ''c'') ''{}'' None),
           ConsoleError ''Unexpected failure preparing log for DB''], Inr ())
   \<and> snd (perform store_failing_env ready_state (Error (JRef 2) JUndefined))
       = snd (perform store_failing_env (ready_state \<lparr> dbInitialized := False \<rparr>)
                (Error (JRef 2) JUndefined))"
proof -
  have a: "storeInDB failing_env ready_state ''info'' (JStr ''x'') EmptyObject None
             = ([ConsoleError ''Unexpected failure preparing log for DB''], Inr ())"
    by (simp add: storeInDB_ready ready_state_def failing_env_def base_env_fields safeMeta_def)
  have b: "perform store_failing_env ready_state (Error (JRef 2) JUndefined)
             = ([ConsoleLog (log_line store_failing_env ''error'' (JStr ''c'') ''{}'' None),
                 ConsoleError ''Unexpected failure preparing log for DB''], Inr ())"
    by (simp add: logger_error_def Let_def as_error_def store_failing_env_def chain_env_def
          error_obj_def base_env_fields safeMeta_def
          log_def below_minimum_def LOG_LEVELS_def esc_def ready_state_def meta_text_def
          bind_def seq_def ret_def emit_def throw_def try_catch_def
          print_stack_if_any_def print_cause_chain_def buildCauseChain_def
          extractFirstProjectFrame_def file_location_def empty_frame_def
          storeInDB_def meta_slice_def)
  from a b
    store_failure_never_propagates[of failing_env ready_state "''info''" "JStr ''x''"
      EmptyObject None Rejected "Error (JRef 2) JUndefined"]
    store_failure_never_propagates[of store_failing_env ready_state "''info''" "JStr ''x''"
      EmptyObject None Rejected "Error (JRef 2) JUndefined"]
  show ?thesis by simp
qed

subsection \<open>Severity filter\<close>

text \<open>
  Claim C1 does not hold as stated: with the minimum level \<open>warn\<close> and the store Ready
  (the state \<open>warn_startup\<close> ends in, see \<open>warn_startup_ready\<close>), \<open>info("x")\<close> is below
  the minimum and still issues its insert.
\<close>

theorem severity_filter_not_on_store_counterexample:
  "below_minimum warn_ready_state ''info''
   \<and> fst (logger_info base_env warn_ready_state (JStr ''x'') JUndefined)
       = [Query 1 (Insert ''info'' ''x'' ''{}'' [])]"
  by (simp add: logger_info_def Let_def log_def below_minimum_def LOG_LEVELS_def esc_def
        warn_ready_state_def ready_state_def base_env_fields safeMeta_def seq_ret
        storeInDB_ready safeToStringMessage_def captureCallStack_base full_ts_base)

text \<open>
  Claim C1, amended. For a level strictly below the configured minimum \<open>log\<close> prints
  nothing, so \<open>debug\<close> does nothing. The store write is not filtered by severity: an
  \<open>info\<close> or \<open>warn\<close> call below the minimum does exactly what \<open>storeInDB\<close> does.
\<close>

theorem severity_filter_on_console:
  "(below_minimum st level \<longrightarrow> log e st level message jmeta loc = ([], Inr ()))
   \<and> (below_minimum st ''debug'' \<longrightarrow> logger_debug e st message meta = ([], Inr ()))
   \<and> (below_minimum st ''info'' \<longrightarrow>
        logger_info e st message meta
          = storeInDB e st ''info'' message (safeMeta (Plain meta))
              (Some (extractFullTsStacktrace e (Some (captureCallStack e)))))
   \<and> (below_minimum st ''warn'' \<longrightarrow>
        logger_warn e st message meta
          = storeInDB e st ''warn'' message (safeMeta (Plain meta))
              (Some (extractFullTsStacktrace e (Some (captureCallStack e)))))"
  by (simp add: log_def logger_debug_def logger_info_def logger_warn_def Let_def seq_ret ret_def[symmetric])

theorem severity_filter_on_console_witness:
  "below_minimum warn_ready_state ''info''
   \<and> log base_env warn_ready_state ''info'' (JStr ''x'') EmptyObject None = ([], Inr ())
   \<and> below_minimum warn_ready_state ''debug''
   \<and> logger_debug base_env warn_ready_state (JStr ''x'') JUndefined = ([], Inr ())
   \<and> logger_info base_env warn_ready_state (JStr ''x'') JUndefined
       = storeInDB base_env warn_ready_state ''info'' (JStr ''x'') (safeMeta (Plain JUndefined))
           (Some (extractFullTsStacktrace base_env (Some (captureCallStack base_env))))
   \<and> \<not> below_minimum warn_ready_state ''warn''"
  using severity_filter_on_console[of warn_ready_state "''info''" base_env "JStr ''x''" EmptyObject None JUndefined]
  by (simp add: below_minimum_def LOG_LEVELS_def esc_def warn_ready_state_def ready_state_def)

text \<open>
  Claim C5. A \<open>debug\<close> call, on the native or on the framework-compatible logger, issues
  no insert and no other network operation, in any state of the store.
\<close>

theorem debug_never_stored:
  "filter is_insert (fst (logger_debug e st message meta)) = []
   \<and> filter is_network (fst (logger_debug e st message meta)) = []
   \<and> filter is_insert (fst (fastify_debug e st msg)) = []
   \<and> filter is_network (fst (fastify_debug e st msg)) = []"
  by (simp add: logger_debug_def fastify_debug_def Let_def filter_log)

theorem debug_never_stored_witness:
  "length (fst (logger_debug base_env (ready_state \<lparr> currentLogLevel := 0 \<rparr>) (JStr ''x'') JUndefined)) = 1
   \<and> filter is_insert
         (fst (logger_debug base_env (ready_state \<lparr> currentLogLevel := 0 \<rparr>) (JStr ''x'') JUndefined)) = []"
  using debug_never_stored[of base_env "ready_state \<lparr> currentLogLevel := 0 \<rparr>" "JStr ''x''" JUndefined]
  by (simp add: logger_debug_def Let_def log_def below_minimum_def LOG_LEVELS_def esc_def
        ready_state_def base_env_fields meta_text_def safeMeta_def bind_def ret_def emit_def)

subsection \<open>Code frame\<close>

text \<open>
  Claim C9. When \<open>ENV_ID\<close> is not \<open>dev\<close>, \<open>error\<close> performs no file-system call
  (\<open>existsSync\<close>, \<open>readFileSync\<close>), whatever the error and its stack, also when a frame
  of the stack resolves to a readable file.
\<close>

theorem no_code_frame_io_when_quiet:
  "env_id e \<noteq> Some ''dev'' \<Longrightarrow> filter is_file_io (fst (logger_error e st message meta)) = []"
proof -
  assume "env_id e \<noteq> Some ''dev''"
  then have q: "\<not> dev e" by (simp add: dev_def)
  show ?thesis
    unfolding logger_error_def Let_def
    by (auto intro!: filter_seq filter_log filter_print_cause_chain filter_storeInDB
          filter_print_stack_if_any[OF q] filter_printStackEnhanced_quiet[OF q]
          split: option.splits)
qed

theorem no_code_frame_io_when_quiet_witness:
  "env_id frame_env \<noteq> Some ''dev''
   \<and> filter is_file_io (fst (logger_error frame_env ready_state (JRef 0) JUndefined)) = []"
  using no_code_frame_io_when_quiet[of frame_env ready_state "JRef 0" JUndefined]
  by (simp add: frame_env_def base_env_fields)

text \<open>In \<open>dev\<close> mode the same call looks the file up and reads it.\<close>

lemma code_frame_io_in_dev:
  "filter is_file_io (fst (logger_error (frame_env \<lparr> env_id := Some ''dev'' \<rparr>) ready_state (JRef 0) JUndefined))
     = [ExistsSync ''/app/src/a.ts'', ReadFileSync ''/app/src/a.ts'']"
  by (simp add: logger_error_def Let_def as_error_def frame_env_def base_env_fields
        fst_seq fst_bind snd_seq snd_bind
        log_def below_minimum_def LOG_LEVELS_def esc_def ready_state_def meta_text_def safeMeta_def
        bind_def ret_def emit_def seq_def throw_def try_catch_def
        print_stack_if_any_def printStackEnhanced_def stack_of_def dev_def
        hasProjectTsFrame_def is_project_line_def starts_with_def nl_def
        extractFirstProjectFrame_def cleanStackTrace_def buildCodeFrame_def
        print_cause_chain_def buildCauseChain_def storeInDB_def meta_slice_def conn_query_def)

subsection \<open>Store lifecycle\<close>

lemma resume_keeps:
  "resume e task oc st = (st', t', es) \<Longrightarrow>
   (conn st \<noteq> None \<longrightarrow> conn st' \<noteq> None) \<and> (dbInitialized st \<longrightarrow> dbInitialized st')
   \<and> inits st' = inits st"
  by (cases task; cases oc)
     (auto simp: resume_def init_failed_def init_finished_def migration_failed_def
        conn_query_def seq_def bind_def emit_def throw_def Let_def
        split: if_splits option.splits prod.splits sum.splits)

lemma resume_inv:
  "resume e task oc st = (st', t', es) \<Longrightarrow> past_pool task \<longrightarrow> conn st \<noteq> None \<Longrightarrow>
   dbInitialized st \<longrightarrow> conn st \<noteq> None \<Longrightarrow>
   (dbInitialized st' \<longrightarrow> conn st' \<noteq> None) \<and> (\<forall>t. t' = Some t \<longrightarrow> past_pool t \<longrightarrow> conn st' \<noteq> None)"
  by (cases task; cases oc)
     (auto simp: resume_def init_failed_def init_finished_def migration_failed_def
        conn_query_def seq_def bind_def emit_def throw_def Let_def
        split: if_splits option.splits prod.splits sum.splits)

lemma set_remove_nth: "set (remove_nth i xs) \<subseteq> set xs"
proof -
  have "set (take i xs) \<subseteq> set xs" by (rule set_take_subset)
  moreover have "set (drop (Suc i) xs) \<subseteq> set xs" by (rule set_drop_subset)
  ultimately show ?thesis by (simp add: remove_nth_def)
qed

lemma createLogger_keeps:
  "createLogger e cfg st = (st', es) \<Longrightarrow>
   conn st' = conn st \<and> dbInitialized st' = dbInitialized st
   \<and> (\<forall>t \<in> set (inits st'). t \<in> set (inits st) \<or> \<not> past_pool t)"
  by (auto simp: createLogger_def initializeConnection_def Let_def
        split: if_splits option.splits)

lemma step_keeps:
  "(dbInitialized st \<longrightarrow> dbInitialized (fst (step e a st)))
   \<and> (conn st \<noteq> None \<longrightarrow> conn (fst (step e a st)) \<noteq> None)"
proof (cases a)
  case (CreateLogger cfg)
  obtain st' es where c: "createLogger e cfg st = (st', es)" by (cases "createLogger e cfg st")
  from createLogger_keeps[OF c] c CreateLogger show ?thesis by (simp add: step_def)
next
  case (Settle i oc)
  show ?thesis
  proof (cases "i < length (inits st)")
    case False
    with Settle show ?thesis by (simp add: step_def)
  next
    case True
    obtain st' t' es where r: "resume e (inits st ! i) oc st = (st', t', es)"
      by (cases "resume e (inits st ! i) oc st")
    from resume_keeps[OF r] r True Settle show ?thesis
      by (cases t') (simp_all add: step_def)
  qed
next
  case (Call c)
  then show ?thesis by (simp add: step_def)
next
  case (InsertSettled oc)
  then show ?thesis by (simp add: step_def)
qed

lemma step_inv: "lifecycle_inv st \<Longrightarrow> lifecycle_inv (fst (step e a st))"
proof (cases a)
  case (CreateLogger cfg)
  assume inv: "lifecycle_inv st"
  obtain st' es where c: "createLogger e cfg st = (st', es)" by (cases "createLogger e cfg st")
  from createLogger_keeps[OF c] inv have "lifecycle_inv st'"
    by (auto simp: lifecycle_inv_def)
  with c CreateLogger show ?thesis by (simp add: step_def)
next
  case (Settle i oc)
  assume inv: "lifecycle_inv st"
  show ?thesis
  proof (cases "i < length (inits st)")
    case False
    with Settle inv show ?thesis by (simp add: step_def)
  next
    case True
    let ?task = "inits st ! i"
    obtain st' t' es where r: "resume e ?task oc st = (st', t', es)"
      by (cases "resume e ?task oc st")
    from True have mem: "?task \<in> set (inits st)" by simp
    with inv have p: "past_pool ?task \<longrightarrow> conn st \<noteq> None"
      and d: "dbInitialized st \<longrightarrow> conn st \<noteq> None"
      by (auto simp: lifecycle_inv_def)
    note k = resume_keeps[OF r]
    note n = resume_inv[OF r p d]
    have old: "\<forall>t \<in> set (inits st). past_pool t \<longrightarrow> conn st' \<noteq> None"
      using inv k by (auto simp: lifecycle_inv_def)
    show ?thesis
    proof (cases t')
      case None
      have "set (remove_nth i (inits st)) \<subseteq> set (inits st)" by (rule set_remove_nth)
      with old n have "lifecycle_inv (st' \<lparr> inits := remove_nth i (inits st) \<rparr>)"
        by (auto simp: lifecycle_inv_def)
      with r None True Settle show ?thesis by (simp add: step_def)
    next
      case (Some t)
      have "set ((inits st) [i := t]) \<subseteq> insert t (set (inits st))"
        by (rule set_update_subset_insert)
      with old n Some have "lifecycle_inv (st' \<lparr> inits := (inits st) [i := t] \<rparr>)"
        by (auto simp: lifecycle_inv_def)
      with r Some True Settle show ?thesis by (simp add: step_def)
    qed
  qed
next
  case (Call c)
  assume "lifecycle_inv st"
  with Call show ?thesis by (simp add: step_def)
next
  case (InsertSettled oc)
  assume "lifecycle_inv st"
  with InsertSettled show ?thesis by (simp add: step_def)
qed

lemma fst_run_Cons: "fst (run ((e, a) # evs) st) = fst (run evs (fst (step e a st)))"
  by (cases "step e a st"; cases "run evs (fst (step e a st))") simp


lemma run_inv: "lifecycle_inv st \<Longrightarrow> lifecycle_inv (fst (run evs st))"
proof (induction evs arbitrary: st)
  case Nil
  then show ?case by simp
next
  case (Cons ea evs)
  obtain e a where ea: "ea = (e, a)" by (cases ea)
  from Cons.prems have "lifecycle_inv (fst (step e a st))" by (rule step_inv)
  then have "lifecycle_inv (fst (run evs (fst (step e a st))))" by (rule Cons.IH)
  with ea show ?case by (simp only: fst_run_Cons)
qed

lemma lifecycle_inv_initial: "lifecycle_inv initial_state"
  by (simp add: lifecycle_inv_def initial_state_def)

text \<open>
  Claim C10. In every state an execution reaches from the initial state, a true
  \<open>dbInitialized\<close> comes with an assigned \<open>conn\<close>. No event resets the flag or the
  pool. And \<open>storeInDB\<close> issues nothing while \<open>conn\<close> is \<open>null\<close>.
\<close>

theorem flag_implies_connection:
  "(dbInitialized (fst (run evs initial_state)) \<longrightarrow> conn (fst (run evs initial_state)) \<noteq> None)
   \<and> (dbInitialized st \<longrightarrow> dbInitialized (fst (step e a st)))
   \<and> (conn st \<noteq> None \<longrightarrow> conn (fst (step e a st)) \<noteq> None)
   \<and> (conn st = None \<longrightarrow> fst (storeInDB e st level message meta stack) = [])"
proof -
  have "lifecycle_inv (fst (run evs initial_state))"
    using lifecycle_inv_initial by (rule run_inv)
  then show ?thesis
    using step_keeps[of st e a] by (simp add: lifecycle_inv_def storeInDB_not_ready)
qed

lemma startup_ready:
  "fst (run startup initial_state) = ready_state"
  by (simp add: startup_def initial_state_def ready_state_def step_def createLogger_def
        initializeConnection_def store_config_def base_env_fields or_else_def dev_def LOG_LEVELS_def
        resume_def conn_query_def emit_def init_finished_def remove_nth_def
        split: prod.splits)

lemma warn_startup_ready: "fst (run warn_startup initial_state) = warn_ready_state"
  by (simp add: warn_startup_def startup_def initial_state_def warn_ready_state_def ready_state_def
        step_def createLogger_def
        initializeConnection_def store_config_def base_env_fields or_else_def LOG_LEVELS_def
        resume_def conn_query_def emit_def init_finished_def remove_nth_def
        split: prod.splits)

theorem flag_implies_connection_witness:
  "dbInitialized (fst (run startup initial_state))
   \<and> conn (fst (run startup initial_state)) = Some 1
   \<and> dbInitialized (fst (step base_env (CreateLogger store_config) ready_state))
   \<and> conn (fst (step base_env (CreateLogger store_config) ready_state)) \<noteq> None
   \<and> conn initial_state = None
   \<and> fst (storeInDB base_env initial_state ''info'' (JStr ''x'') EmptyObject None) = []"
  using flag_implies_connection[of startup ready_state base_env "CreateLogger store_config"]
        flag_implies_connection[of startup initial_state base_env "CreateLogger store_config"
          "''info''" "JStr ''x''" EmptyObject None]
  by (simp add: startup_ready) (simp add: ready_state_def initial_state_def)
























end
